theory Spec2Isabelle
  imports Main
begin

section \<open>The deployment script \<^verbatim>\<open>scripts/deployLogic.ts\<close>\<close>

text \<open>
  The script talks to a blockchain through the ethers, hardhat and Gnosis Safe
  libraries. Every \<^verbatim>\<open>await\<close> on one of them is an external call: the model
  records it in a history and takes its outcome (a value, or a thrown error) from an
  environment, which may depend on everything that happened before. Functions of the
  script are translated one by one, in the order of the source; \<^verbatim>\<open>log\<close> output is
  left out, except the line the \<^verbatim>\<open>catch\<close> block of \<^verbatim>\<open>deployContract\<close> prints.
  Two library calls are taken as pure: \<^verbatim>\<open>populateTransaction\<close> builds the
  transaction from its arguments, and \<^verbatim>\<open>factory.attach\<close> wraps an address. The
  Safe transaction that \<^verbatim>\<open>createTransaction\<close> returns is identified with the data
  it was created from.
\<close>

subsection \<open>Strings\<close>

text \<open>\<^verbatim>\<open>String.prototype.toLowerCase\<close> on ASCII text: the letters A to Z move to a to z.\<close>

definition lowerChar :: "char \<Rightarrow> char" where
  "lowerChar c =
     (case map_of (zip ''ABCDEFGHIJKLMNOPQRSTUVWXYZ'' ''abcdefghijklmnopqrstuvwxyz'') c of
        Some l \<Rightarrow> l
      | None \<Rightarrow> c)"

definition toLowerCase :: "string \<Rightarrow> string" where
  "toLowerCase s = map lowerChar s"

text \<open>\<^verbatim>\<open>s.slice(i, j)\<close> for \<^verbatim>\<open>0 <= i <= j\<close>: the characters from index i up to, not including, j.\<close>

definition slice :: "string \<Rightarrow> nat \<Rightarrow> nat \<Rightarrow> string" where
  "slice s i j = take (j - i) (drop i s)"

text \<open>A value that may be \<^verbatim>\<open>undefined\<close> is an option; the empty string is falsy as well.\<close>

definition truthy :: "string option \<Rightarrow> string option" where
  "truthy x = (case x of None \<Rightarrow> None | Some s \<Rightarrow> if s = [] then None else Some s)"

definition zeroAddress :: string where
  "zeroAddress = ''0x0000000000000000000000000000000000000000''"

definition gasLimit :: nat where
  "gasLimit = 700000"

subsection \<open>Transactions\<close>

datatype arg = AStr string | AStrs "string list" | ABool bool | ANum nat | AUndefined

text \<open>The ABI encoding of a call is kept symbolic: the method and its arguments.\<close>

datatype calldata = Calldata string "arg list"

record txn =
  to :: "string option"
  "from" :: "string option"
  data :: "calldata option"
  "value" :: "nat option"
  txGasLimit :: "nat option"

datatype operationType = Call | DelegateCall

record safeTransactionData =
  safe_to :: string
  safe_value :: string
  safe_data :: calldata
  operation :: operationType

datatype contract = Contract (address: string)

text \<open>
  \<^verbatim>\<open>contract.populateTransaction.method(args, overrides)\<close>: the transaction is addressed to
  the contract and carries the encoded call and the overrides.
\<close>

definition populateTransaction ::
  "contract \<Rightarrow> string \<Rightarrow> arg list \<Rightarrow> nat option \<Rightarrow> string option \<Rightarrow> txn" where
  "populateTransaction c method args gas sender =
     \<lparr>to = Some (address c), from = sender, data = Some (Calldata method args),
      value = None, txGasLimit = gas\<rparr>"

text \<open>\<^verbatim>\<open>BigNumber.toString()\<close> of a non-negative amount: its decimal digits.\<close>

fun toString :: "nat \<Rightarrow> string" where
  "toString n =
     (if n < 10 then [char_of (48 + n)]
      else toString (n div 10) @ [char_of (48 + n mod 10)])"

subsection \<open>External calls, their outcomes, and the history\<close>

datatype error = Error string | TypeError string

datatype call =
    GetSigners
  | GetAddress string
  | GetContractFactory string
  | FactoryDeploy string "arg list"
  | WaitDeployed string
  | WaitConfirm string nat
  | Sleep nat
  | Verify string "arg list"
  | Read string string
  | SafeCreate string "string option"
  | SafeCreateTransaction safeTransactionData
  | SafeExecuteTransaction safeTransactionData
  | SendTransaction string txn

datatype response =
    RUnit
  | RStr string
  | RStrs "string list"
  | RDeployed string string
  | RTx string
  | RReceipt nat

datatype event =
    Ext call "error + response"
  | Log nat string error

type_synonym history = "event list"

type_synonym env = "history \<Rightarrow> call \<Rightarrow> error + response"

type_synonym 'a io = "history \<Rightarrow> (error + 'a) \<times> history"

definition returnE :: "'a \<Rightarrow> 'a io" where
  "returnE x h = (Inr x, h)"

definition throwE :: "error \<Rightarrow> 'a io" where
  "throwE e h = (Inl e, h)"

definition bindE :: "'a io \<Rightarrow> ('a \<Rightarrow> 'b io) \<Rightarrow> 'b io" where
  "bindE m f h = (case m h of (Inl e, h') \<Rightarrow> (Inl e, h') | (Inr x, h') \<Rightarrow> f x h')"

definition catchE :: "'a io \<Rightarrow> (error \<Rightarrow> 'a io) \<Rightarrow> 'a io" where
  "catchE m handler h = (case m h of (Inl e, h') \<Rightarrow> handler e h' | (Inr x, h') \<Rightarrow> (Inr x, h'))"

definition await :: "env \<Rightarrow> call \<Rightarrow> response io" where
  "await env c h = (env h c, h @ [Ext c (env h c)])"

definition log :: "nat \<Rightarrow> string \<Rightarrow> error \<Rightarrow> unit io" where
  "log level msg e h = (Inr (), h @ [Log level msg e])"

text \<open>Reading a result at the type the script uses it at; anything else is a TypeError.\<close>

definition asString :: "response \<Rightarrow> string io" where
  "asString r = (case r of RStr s \<Rightarrow> returnE s | _ \<Rightarrow> throwE (TypeError ''not a string''))"

definition asStrings :: "response \<Rightarrow> (string list) io" where
  "asStrings r = (case r of RStrs xs \<Rightarrow> returnE xs | _ \<Rightarrow> throwE (TypeError ''not an array''))"

definition asDeployed :: "response \<Rightarrow> (string \<times> string) io" where
  "asDeployed r =
     (case r of RDeployed a t \<Rightarrow> returnE (a, t) | _ \<Rightarrow> throwE (TypeError ''not a contract''))"

definition asTx :: "response \<Rightarrow> string io" where
  "asTx r = (case r of RTx t \<Rightarrow> returnE t | _ \<Rightarrow> throwE (TypeError ''not a transaction''))"

definition asReceipt :: "response \<Rightarrow> nat io" where
  "asReceipt r = (case r of RReceipt g \<Rightarrow> returnE g | _ \<Rightarrow> throwE (TypeError ''not a receipt''))"

text \<open>\<^verbatim>\<open>(await ethers.getSigners())[0]\<close>: undefined when there is no signer.\<close>

definition firstSigner :: "env \<Rightarrow> (string option) io" where
  "firstSigner env =
     bindE (await env GetSigners) (\<lambda>r.
     bindE (asStrings r) (\<lambda>signers.
     returnE (case signers of [] \<Rightarrow> None | s # _ \<Rightarrow> Some s)))"

subsection \<open>\<^verbatim>\<open>printInfo\<close> and \<^verbatim>\<open>executeTxn\<close>\<close>

definition printInfo :: "env \<Rightarrow> string \<Rightarrow> unit io" where
  "printInfo env tx =
     bindE (await env (WaitConfirm tx 1)) (\<lambda>r.
     bindE (asReceipt r) (\<lambda>gasUsed.
     returnE ()))"

definition executeTxn :: "env \<Rightarrow> string option \<Rightarrow> txn \<Rightarrow> string io" where
  "executeTxn env multisig t =
     (case truthy multisig of
        Some safeAddress \<Rightarrow>
          bindE (firstSigner env) (\<lambda>signer.
          bindE (await env (SafeCreate safeAddress signer)) (\<lambda>safeSdk.
          (case data t of
             None \<Rightarrow> throwE (TypeError ''txn.data is undefined'')
           | Some d \<Rightarrow>
               (let safeTransaction =
                  \<lparr>safe_to = (case to t of Some a \<Rightarrow> a | None \<Rightarrow> zeroAddress),
                   safe_value = (case value t of Some v \<Rightarrow> toString v | None \<Rightarrow> ''0''),
                   safe_data = d,
                   operation = Call\<rparr>
                in bindE (await env (SafeCreateTransaction safeTransaction)) (\<lambda>created.
                   bindE (await env (SafeExecuteTransaction safeTransaction)) (\<lambda>r.
                   asTx r))))))
      | None \<Rightarrow>
          bindE (firstSigner env) (\<lambda>signer.
          (case signer of
             None \<Rightarrow> throwE (TypeError ''signer is undefined'')
           | Some s \<Rightarrow> bindE (await env (SendTransaction s t)) (\<lambda>r. asTx r))))"

subsection \<open>\<^verbatim>\<open>updateAddressSet\<close>\<close>

definition updateAddressSet ::
  "env \<Rightarrow> string option \<Rightarrow> contract \<Rightarrow> string \<Rightarrow> string list \<Rightarrow> string list \<Rightarrow>
   string option \<Rightarrow> unit io" where
  "updateAddressSet env multisig c populateFunc toBeRemoved toBeAdded extraArgs =
     bindE (if length toBeRemoved \<noteq> 0
            then bindE (executeTxn env multisig
                          (populateTransaction c populateFunc [AStrs toBeRemoved, ABool False]
                             (Some gasLimit) extraArgs)) (\<lambda>tx.
                 printInfo env tx)
            else returnE ()) (\<lambda>_.
     if length toBeAdded \<noteq> 0
     then bindE (executeTxn env multisig
                   (populateTransaction c populateFunc [AStrs toBeAdded, ABool True]
                      (Some gasLimit) extraArgs)) (\<lambda>tx.
          printInfo env tx)
     else returnE ())"

subsection \<open>The network configuration and the deployed contracts\<close>

text \<open>
  The fields of \<^verbatim>\<open>IConfig\<close> that the script reads. A protocol that a network does not
  have is \<^verbatim>\<open>undefined\<close> there. Fields of two records that share a name in the source
  carry the record's name as a prefix here.
\<close>

record uniswapConfig =
  routers :: "string list"

record kyberProxyConfig =
  proxy :: string

record kyberDmmConfig =
  router :: string

record compoundConfig =
  compTroller :: string
  cNative :: string
  cTokens :: "string list"

record aaveV1Config =
  poolV1 :: string
  poolCoreV1 :: string
  v1_referralCode :: nat
  v1_tokens :: "string list"

record aaveV2Config =
  provider :: string
  poolV2 :: string
  referralCode :: nat
  weth :: string
  tokens :: "string list"

record networkConfig =
  autoVerifyContract :: bool
  supportedWallets :: "string list"
  uniswap :: "uniswapConfig option"
  uniswapV3 :: "uniswapConfig option"
  kyberProxy :: "kyberProxyConfig option"
  kyberDmm :: "kyberDmmConfig option"
  compound :: "compoundConfig option"
  aaveV1 :: "aaveV1Config option"
  aaveV2 :: "aaveV2Config option"
  aaveAMM :: "aaveV2Config option"

record swapContracts =
  uniSwap :: "contract option"
  uniSwapV3 :: "contract option"
  swap_kyberProxy :: "contract option"
  swap_kyberDmm :: "contract option"

record lendingContracts =
  compoundLending :: "contract option"
  lending_aaveV1 :: "contract option"
  lending_aaveV2 :: "contract option"
  lending_aaveAMM :: "contract option"

record KrystalContracts =
  smartWalletImplementation :: contract
  smartWalletProxy :: contract
  fetchTokenBalances :: contract
  fetchAaveDataWrapper :: contract
  swaps :: swapContracts
  lendings :: lendingContracts

text \<open>\<^verbatim>\<open>Object.values(o).filter((c) => c)\<close>: the contracts that are defined, in key order.\<close>

definition swapValues :: "swapContracts \<Rightarrow> contract list" where
  "swapValues s =
     List.map_filter id [uniSwap s, uniSwapV3 s, swap_kyberProxy s, swap_kyberDmm s]"

definition lendingValues :: "lendingContracts \<Rightarrow> contract list" where
  "lendingValues l =
     List.map_filter id [compoundLending l, lending_aaveV1 l, lending_aaveV2 l, lending_aaveAMM l]"

text \<open>
  \<^verbatim>\<open>existingContract\<close> is a nested record of addresses, or undefined. A lookup
  \<^verbatim>\<open>existingContract?.[k1]?.[k2]\<close> follows the path of keys and is undefined when a
  key is missing.
\<close>

type_synonym existing = "string list \<Rightarrow> string option"

subsection \<open>\<^verbatim>\<open>deployContract\<close> and \<^verbatim>\<open>deployContracts\<close>\<close>

definition deployContract ::
  "env \<Rightarrow> bool \<Rightarrow> string \<Rightarrow> string option \<Rightarrow> arg list \<Rightarrow> contract io" where
  "deployContract env autoVerify contractName contractAddress args =
     bindE (await env (GetContractFactory contractName)) (\<lambda>factory.
     (case truthy contractAddress of
        Some a \<Rightarrow> returnE (Contract a)
      | None \<Rightarrow>
          bindE (await env (FactoryDeploy contractName args)) (\<lambda>r.
          bindE (asDeployed r) (\<lambda>(addr, deployTransaction).
          bindE (await env (WaitDeployed addr)) (\<lambda>tx.
          bindE (printInfo env deployTransaction) (\<lambda>_.
          bindE (if autoVerify
                 then catchE
                        (bindE (await env (Sleep 10000)) (\<lambda>_.
                         bindE (await env (Verify addr args)) (\<lambda>_.
                         returnE ())))
                        (\<lambda>e. log 2 ''failed to verify contract'' e)
                 else returnE ()) (\<lambda>_.
          returnE (Contract addr))))))))"

definition deployContracts :: "env \<Rightarrow> networkConfig \<Rightarrow> existing \<Rightarrow> string \<Rightarrow> KrystalContracts io" where
  "deployContracts env cfg existingContract contractAdmin =
     bindE (deployContract env (autoVerifyContract cfg) ''SmartWalletImplementation''
              (existingContract [''smartWalletImplementation'']) [AStr contractAdmin]) (\<lambda>impl.
     bindE (deployContract env (autoVerifyContract cfg) ''FetchTokenBalances''
              (existingContract [''fetchTokenBalances'']) [AStr contractAdmin]) (\<lambda>ftb.
     bindE (deployContract env (autoVerifyContract cfg) ''FetchAaveDataWrapper''
              (existingContract [''fetchAaveDataWrapper'']) [AStr contractAdmin]) (\<lambda>fadw.
     bindE (case uniswap cfg of
              None \<Rightarrow> returnE None
            | Some u \<Rightarrow>
                bindE (deployContract env (autoVerifyContract cfg) ''UniSwap''
                         (existingContract [''swapContracts'', ''uniSwap''])
                         [AStr contractAdmin, AStrs (routers u)]) (\<lambda>c. returnE (Some c))) (\<lambda>c_uniSwap.
     bindE (case uniswapV3 cfg of
              None \<Rightarrow> returnE None
            | Some u \<Rightarrow>
                bindE (deployContract env (autoVerifyContract cfg) ''UniSwapV3''
                         (existingContract [''swapContracts'', ''uniSwapV3''])
                         [AStr contractAdmin, AStrs (routers u)]) (\<lambda>c. returnE (Some c))) (\<lambda>c_uniSwapV3.
     bindE (case kyberProxy cfg of
              None \<Rightarrow> returnE None
            | Some k \<Rightarrow>
                bindE (deployContract env (autoVerifyContract cfg) ''KyberProxy''
                         (existingContract [''swapContracts'', ''kyberProxy''])
                         [AStr contractAdmin, AStr (proxy k)]) (\<lambda>c. returnE (Some c))) (\<lambda>c_kyberProxy.
     bindE (case kyberDmm cfg of
              None \<Rightarrow> returnE None
            | Some k \<Rightarrow>
                bindE (deployContract env (autoVerifyContract cfg) ''KyberDmm''
                         (existingContract [''swapContracts'', ''kyberDmm''])
                         [AStr contractAdmin, AStr (router k)]) (\<lambda>c. returnE (Some c))) (\<lambda>c_kyberDmm.
     bindE (case compound cfg of
              None \<Rightarrow> returnE None
            | Some _ \<Rightarrow>
                bindE (deployContract env (autoVerifyContract cfg) ''CompoundLending''
                         (existingContract [''lendingContracts'', ''compoundLending''])
                         [AStr contractAdmin]) (\<lambda>c. returnE (Some c))) (\<lambda>c_compound.
     bindE (case aaveV1 cfg of
              None \<Rightarrow> returnE None
            | Some _ \<Rightarrow>
                bindE (deployContract env (autoVerifyContract cfg) ''AaveV1Lending''
                         (existingContract [''lendingContracts'', ''aaveV1Lending''])
                         [AStr contractAdmin]) (\<lambda>c. returnE (Some c))) (\<lambda>c_aaveV1.
     bindE (case aaveV2 cfg of
              None \<Rightarrow> returnE None
            | Some _ \<Rightarrow>
                bindE (deployContract env (autoVerifyContract cfg) ''AaveV2Lending''
                         (existingContract [''lendingContracts'', ''aaveV2Lending''])
                         [AStr contractAdmin]) (\<lambda>c. returnE (Some c))) (\<lambda>c_aaveV2.
     bindE (case aaveAMM cfg of
              None \<Rightarrow> returnE None
            | Some _ \<Rightarrow>
                bindE (deployContract env (autoVerifyContract cfg) ''AaveV2Lending''
                         (existingContract [''lendingContracts'', ''aaveAMMLending''])
                         [AStr contractAdmin]) (\<lambda>c. returnE (Some c))) (\<lambda>c_aaveAMM.
     (let swapContracts =
            \<lparr>uniSwap = c_uniSwap, uniSwapV3 = c_uniSwapV3,
             swap_kyberProxy = c_kyberProxy, swap_kyberDmm = c_kyberDmm\<rparr>;
          lendingContracts =
            \<lparr>compoundLending = c_compound, lending_aaveV1 = c_aaveV1,
             lending_aaveV2 = c_aaveV2, lending_aaveAMM = c_aaveAMM\<rparr>
      in bindE (deployContract env (autoVerifyContract cfg) ''SmartWalletProxy''
                  (existingContract [''smartWalletProxy''])
                  [AStr contractAdmin, AStr (address impl), AStrs (supportedWallets cfg),
                   AStrs (map address (swapValues swapContracts)),
                   AStrs (map address (lendingValues lendingContracts))]) (\<lambda>prox.
         returnE \<lparr>smartWalletImplementation = impl, smartWalletProxy = prox,
                  fetchTokenBalances = ftb, fetchAaveDataWrapper = fadw,
                  swaps = swapContracts, lendings = lendingContracts\<rparr>)))))))))))))"

subsection \<open>\<^verbatim>\<open>updateProxy\<close>\<close>

text \<open>The four blocks of \<^verbatim>\<open>updateProxy\<close>, each under the line it logs first.\<close>

text \<open>\<^verbatim>\<open>'Update impl contract'\<close>\<close>

definition updateImplementation ::
  "env \<Rightarrow> string option \<Rightarrow> KrystalContracts \<Rightarrow> string option \<Rightarrow> unit io" where
  "updateImplementation env multisig k extraArgs =
     bindE (await env (Read (address (smartWalletProxy k)) ''implementation'')) (\<lambda>r.
     bindE (asString r) (\<lambda>currentImpl.
     if currentImpl = address (smartWalletImplementation k) then returnE ()
     else bindE (executeTxn env multisig
                   (populateTransaction (smartWalletProxy k) ''updateNewImplementation''
                      [AStr (address (smartWalletImplementation k))] (Some gasLimit) extraArgs)) (\<lambda>tx.
          printInfo env tx)))"

text \<open>\<^verbatim>\<open>'update supported platform wallets'\<close>\<close>

definition updateSupportedPlatformWallets ::
  "env \<Rightarrow> string option \<Rightarrow> networkConfig \<Rightarrow> KrystalContracts \<Rightarrow> string option \<Rightarrow> unit io" where
  "updateSupportedPlatformWallets env multisig cfg k extraArgs =
     bindE (await env (Read (address (smartWalletProxy k)) ''getAllSupportedPlatformWallets'')) (\<lambda>r.
     bindE (asStrings r) (\<lambda>wallets.
     (let existing = map toLowerCase wallets;
          configWallets = map toLowerCase (supportedWallets cfg);
          toBeRemoved = filter (\<lambda>add. \<not> (add \<in> set configWallets)) existing;
          toBeAdded = filter (\<lambda>add. \<not> (add \<in> set existing)) configWallets
      in updateAddressSet env multisig (smartWalletProxy k) ''updateSupportedPlatformWallets''
           toBeRemoved toBeAdded extraArgs)))"

text \<open>\<^verbatim>\<open>'update supported swaps'\<close>\<close>

definition updateSupportedSwaps ::
  "env \<Rightarrow> string option \<Rightarrow> KrystalContracts \<Rightarrow> string option \<Rightarrow> unit io" where
  "updateSupportedSwaps env multisig k extraArgs =
     bindE (await env (Read (address (smartWalletProxy k)) ''getAllSupportedSwaps'')) (\<lambda>r.
     bindE (asStrings r) (\<lambda>onChain.
     (let existing = map toLowerCase onChain;
          swaps = map (\<lambda>c. toLowerCase (address c)) (swapValues (swaps k));
          toBeRemoved = filter (\<lambda>add. \<not> (add \<in> set swaps)) existing;
          toBeAdded = filter (\<lambda>add. \<not> (add \<in> set existing)) swaps
      in updateAddressSet env multisig (smartWalletProxy k) ''updateSupportedSwaps''
           toBeRemoved toBeAdded extraArgs)))"

text \<open>\<^verbatim>\<open>'update supported lendings'\<close>\<close>

definition updateSupportedLendings ::
  "env \<Rightarrow> string option \<Rightarrow> KrystalContracts \<Rightarrow> string option \<Rightarrow> unit io" where
  "updateSupportedLendings env multisig k extraArgs =
     bindE (await env (Read (address (smartWalletProxy k)) ''getAllSupportedLendings'')) (\<lambda>r.
     bindE (asStrings r) (\<lambda>onChain.
     (let existing = map toLowerCase onChain;
          lendings = map (\<lambda>c. toLowerCase (address c)) (lendingValues (lendings k));
          toBeRemoved = filter (\<lambda>add. \<not> (add \<in> set lendings)) existing;
          toBeAdded = filter (\<lambda>add. \<not> (add \<in> set existing)) lendings
      in updateAddressSet env multisig (smartWalletProxy k) ''updateSupportedLendings''
           toBeRemoved toBeAdded extraArgs)))"

definition updateProxy ::
  "env \<Rightarrow> string option \<Rightarrow> networkConfig \<Rightarrow> KrystalContracts \<Rightarrow> string option \<Rightarrow> unit io" where
  "updateProxy env multisig cfg k extraArgs =
     bindE (updateImplementation env multisig k extraArgs) (\<lambda>_.
     bindE (updateSupportedPlatformWallets env multisig cfg k extraArgs) (\<lambda>_.
     bindE (updateSupportedSwaps env multisig k extraArgs) (\<lambda>_.
     updateSupportedLendings env multisig k extraArgs)))"

subsection \<open>\<^verbatim>\<open>updateChildContracts\<close>\<close>

text \<open>The body of the loop over \<^verbatim>\<open>merged\<close>, for one entry.\<close>

definition linkChild ::
  "env \<Rightarrow> string option \<Rightarrow> contract \<Rightarrow> string option \<Rightarrow> contract option \<Rightarrow> unit io" where
  "linkChild env multisig prox extraArgs entry =
     (case entry of
        None \<Rightarrow> returnE ()
      | Some c \<Rightarrow>
          bindE (await env (Read (address c) ''proxyContract'')) (\<lambda>r.
          bindE (asString r) (\<lambda>current.
          if toLowerCase current = toLowerCase (address prox) then returnE ()
          else bindE (executeTxn env multisig
                        (populateTransaction c ''updateProxyContract'' [AStr (address prox)]
                           (Some gasLimit) extraArgs)) (\<lambda>tx.
               printInfo env tx))))"

fun linkChildren ::
  "env \<Rightarrow> string option \<Rightarrow> contract \<Rightarrow> string option \<Rightarrow> contract option list \<Rightarrow> unit io" where
  "linkChildren env multisig prox extraArgs [] = returnE ()"
| "linkChildren env multisig prox extraArgs (entry # rest) =
     bindE (linkChild env multisig prox extraArgs entry) (\<lambda>_.
     linkChildren env multisig prox extraArgs rest)"

definition updateChildContracts ::
  "env \<Rightarrow> string option \<Rightarrow> KrystalContracts \<Rightarrow> string option \<Rightarrow> unit io" where
  "updateChildContracts env multisig k extraArgs =
     (let merged =
            [uniSwap (swaps k), uniSwapV3 (swaps k), swap_kyberProxy (swaps k),
             swap_kyberDmm (swaps k), compoundLending (lendings k), lending_aaveV1 (lendings k),
             lending_aaveV2 (lendings k), lending_aaveAMM (lendings k)]
      in linkChildren env multisig (smartWalletProxy k) extraArgs merged)"

subsection \<open>The swap adapters\<close>

definition updateUniSwap ::
  "env \<Rightarrow> string option \<Rightarrow> networkConfig \<Rightarrow> contract option \<Rightarrow> string option \<Rightarrow> unit io" where
  "updateUniSwap env multisig cfg c extraArgs =
     (case (c, uniswap cfg) of
        (Some uni, Some u) \<Rightarrow>
          bindE (await env (Read (address uni) ''getAllUniRouters'')) (\<lambda>r.
          bindE (asStrings r) (\<lambda>onChain.
          (let existing = map toLowerCase onChain;
               configRouters = map toLowerCase (routers u);
               toBeRemoved = filter (\<lambda>add. \<not> (add \<in> set configRouters)) existing;
               toBeAdded = filter (\<lambda>add. \<not> (add \<in> set existing)) configRouters
           in updateAddressSet env multisig uni ''updateUniRouters''
                toBeRemoved toBeAdded extraArgs)))
      | _ \<Rightarrow> returnE ())"

definition updateUniSwapV3 ::
  "env \<Rightarrow> string option \<Rightarrow> networkConfig \<Rightarrow> contract option \<Rightarrow> string option \<Rightarrow> unit io" where
  "updateUniSwapV3 env multisig cfg c extraArgs =
     (case (c, uniswapV3 cfg) of
        (Some uni, Some u) \<Rightarrow>
          bindE (await env (Read (address uni) ''getAllUniRouters'')) (\<lambda>r.
          bindE (asStrings r) (\<lambda>onChain.
          (let existing = map toLowerCase onChain;
               configRouters = map toLowerCase (routers u);
               toBeRemoved = filter (\<lambda>add. \<not> (add \<in> set configRouters)) existing;
               toBeAdded = filter (\<lambda>add. \<not> (add \<in> set existing)) configRouters
           in updateAddressSet env multisig uni ''updateUniRouters''
                toBeRemoved toBeAdded extraArgs)))
      | _ \<Rightarrow> returnE ())"

definition updateKyberProxy ::
  "env \<Rightarrow> string option \<Rightarrow> networkConfig \<Rightarrow> contract option \<Rightarrow> string option \<Rightarrow> unit io" where
  "updateKyberProxy env multisig cfg c extraArgs =
     (case (c, kyberProxy cfg) of
        (Some kp, Some k) \<Rightarrow>
          bindE (await env (Read (address kp) ''kyberProxy'')) (\<lambda>r.
          bindE (asString r) (\<lambda>current.
          if toLowerCase current = toLowerCase (proxy k) then returnE ()
          else bindE (executeTxn env multisig
                        (populateTransaction kp ''updateKyberProxy'' [AStr (proxy k)]
                           None None)) (\<lambda>tx.
               printInfo env tx)))
      | _ \<Rightarrow> returnE ())"

definition updateKyberDmm ::
  "env \<Rightarrow> string option \<Rightarrow> networkConfig \<Rightarrow> contract option \<Rightarrow> string option \<Rightarrow> unit io" where
  "updateKyberDmm env multisig cfg c extraArgs =
     (case (c, kyberDmm cfg) of
        (Some kd, Some k) \<Rightarrow>
          bindE (await env (Read (address kd) ''dmmRouter'')) (\<lambda>r.
          bindE (asString r) (\<lambda>current.
          if toLowerCase current = toLowerCase (router k) then returnE ()
          else bindE (executeTxn env multisig
                        (populateTransaction kd ''updateDmmRouter'' [AStr (router k)]
                           None None)) (\<lambda>tx.
               printInfo env tx)))
      | _ \<Rightarrow> returnE ())"

subsection \<open>The lending adapters\<close>

definition updateCompoundLending ::
  "env \<Rightarrow> string option \<Rightarrow> networkConfig \<Rightarrow> contract option \<Rightarrow> string option \<Rightarrow> unit io" where
  "updateCompoundLending env multisig cfg c extraArgs =
     (case (c, compound cfg) of
        (Some cl, Some cc) \<Rightarrow>
          bindE (await env (Read (address cl) ''compoundData'')) (\<lambda>r.
          bindE (asString r) (\<lambda>compoundData.
          (let currentComptroller = ''0x'' @ slice compoundData 2 40
           in if currentComptroller = compTroller cc then returnE ()
              else bindE (executeTxn env multisig
                            (populateTransaction cl ''updateCompoundData''
                               [AStr (compTroller cc), AStr (cNative cc), AStrs (cTokens cc)]
                               None None)) (\<lambda>tx.
                   printInfo env tx))))
      | _ \<Rightarrow> returnE ())"

definition updateAaveV1Lending ::
  "env \<Rightarrow> string option \<Rightarrow> networkConfig \<Rightarrow> contract option \<Rightarrow> string option \<Rightarrow> unit io" where
  "updateAaveV1Lending env multisig cfg c extraArgs =
     (case (c, aaveV1 cfg) of
        (Some lending, Some a) \<Rightarrow>
          bindE (executeTxn env multisig
                   (populateTransaction lending ''updateAaveData''
                      [AStr (poolV1 a), AStr (poolCoreV1 a), ANum (v1_referralCode a),
                       AStrs (v1_tokens a)]
                      None None)) (\<lambda>tx.
          printInfo env tx)
      | _ \<Rightarrow> returnE ())"

definition updateAaveV2Lending ::
  "env \<Rightarrow> string option \<Rightarrow> contract option \<Rightarrow> aaveV2Config option \<Rightarrow> string option \<Rightarrow> unit io" where
  "updateAaveV2Lending env multisig c aaveV2Config extraArgs =
     (case (c, aaveV2Config) of
        (Some lending, Some a) \<Rightarrow>
          bindE (executeTxn env multisig
                   (populateTransaction lending ''updateAaveData''
                      [AStr (provider a), AStr (poolV2 a), ANum (referralCode a), AStr (weth a),
                       AStrs (tokens a)]
                      None None)) (\<lambda>tx.
          printInfo env tx)
      | _ \<Rightarrow> returnE ())"

subsection \<open>\<^verbatim>\<open>deploy\<close> and the module's load\<close>

definition deploy ::
  "env \<Rightarrow> string option \<Rightarrow> networkConfig \<Rightarrow> existing \<Rightarrow> string option \<Rightarrow> KrystalContracts io" where
  "deploy env multisig cfg existingContract extraArgs =
     bindE (firstSigner env) (\<lambda>deployer.
     (case deployer of
        None \<Rightarrow> throwE (TypeError ''deployer is undefined'')
      | Some d \<Rightarrow>
          bindE (await env (GetAddress d)) (\<lambda>r.
          bindE (asString r) (\<lambda>deployerAddress.
          bindE (deployContracts env cfg existingContract
                   (case truthy multisig of Some m \<Rightarrow> m | None \<Rightarrow> deployerAddress)) (\<lambda>deployedContracts.
          bindE (updateProxy env multisig cfg deployedContracts extraArgs) (\<lambda>_.
          bindE (updateChildContracts env multisig deployedContracts extraArgs) (\<lambda>_.
          bindE (updateUniSwap env multisig cfg (uniSwap (swaps deployedContracts)) extraArgs) (\<lambda>_.
          bindE (updateUniSwapV3 env multisig cfg (uniSwapV3 (swaps deployedContracts)) extraArgs) (\<lambda>_.
          bindE (updateKyberProxy env multisig cfg (swap_kyberProxy (swaps deployedContracts)) extraArgs) (\<lambda>_.
          bindE (updateKyberDmm env multisig cfg (swap_kyberDmm (swaps deployedContracts)) extraArgs) (\<lambda>_.
          bindE (updateCompoundLending env multisig cfg (compoundLending (lendings deployedContracts)) extraArgs) (\<lambda>_.
          bindE (updateAaveV1Lending env multisig cfg (lending_aaveV1 (lendings deployedContracts)) extraArgs) (\<lambda>_.
          bindE (updateAaveV2Lending env multisig (lending_aaveV2 (lendings deployedContracts)) (aaveV2 cfg) extraArgs) (\<lambda>_.
          bindE (updateAaveV2Lending env multisig (lending_aaveAMM (lendings deployedContracts)) (aaveAMM cfg) extraArgs) (\<lambda>_.
          returnE deployedContracts)))))))))))))))"

text \<open>
  The module reads its configuration when it is loaded, before \<^verbatim>\<open>deploy\<close> can be
  called. \<^verbatim>\<open>NetworkConfig\<close> is a plain object: its own entries are a table from
  network names to configurations, and a name it has no entry for is still looked up in
  \<^verbatim>\<open>Object.prototype\<close>. So \<^verbatim>\<open>NetworkConfig[network.name]\<close> is the entry, or a
  member of the prototype (a function, or the prototype itself under \<^verbatim>\<open>__proto__\<close>),
  or \<^verbatim>\<open>undefined\<close>; only the last is falsy.
\<close>

definition objectPrototype :: "string list" where
  "objectPrototype =
     [''constructor'', ''__defineGetter__'', ''__defineSetter__'', ''hasOwnProperty'',
      ''__lookupGetter__'', ''__lookupSetter__'', ''isPrototypeOf'', ''propertyIsEnumerable'',
      ''toString'', ''valueOf'', ''__proto__'', ''toLocaleString'']"

datatype moduleConfig = Entry networkConfig | Inherited

definition loadModule :: "(string \<rightharpoonup> networkConfig) \<Rightarrow> string \<Rightarrow> error + moduleConfig" where
  "loadModule NetworkConfig networkName =
     (case NetworkConfig networkName of
        Some networkConfig \<Rightarrow> Inr (Entry networkConfig)
      | None \<Rightarrow>
          if networkName \<in> set objectPrototype then Inr Inherited
          else Inl (Error (''Missing deploy config for '' @ networkName)))"

text \<open>
  \<^verbatim>\<open>deploy\<close> when \<^verbatim>\<open>networkConfig\<close> is a member of the prototype: every field the
  script reads of it is \<^verbatim>\<open>undefined\<close>. So nothing is verified, no swap or lending
  contract is deployed, the proxy is constructed with \<^verbatim>\<open>undefined\<close> for its wallets,
  and \<^verbatim>\<open>updateProxy\<close> stops with a TypeError at
  \<^verbatim>\<open>networkConfig.supportedWallets.map\<close>, after it has read the wallets on the chain.
\<close>

definition deployInherited ::
  "env \<Rightarrow> string option \<Rightarrow> existing \<Rightarrow> string option \<Rightarrow> KrystalContracts io" where
  "deployInherited env multisig existingContract extraArgs =
     bindE (firstSigner env) (\<lambda>deployer.
     (case deployer of
        None \<Rightarrow> throwE (TypeError ''deployer is undefined'')
      | Some d \<Rightarrow>
          bindE (await env (GetAddress d)) (\<lambda>r.
          bindE (asString r) (\<lambda>deployerAddress.
          (let contractAdmin = (case truthy multisig of Some m \<Rightarrow> m | None \<Rightarrow> deployerAddress)
           in bindE (deployContract env False ''SmartWalletImplementation''
                       (existingContract [''smartWalletImplementation'']) [AStr contractAdmin]) (\<lambda>impl.
              bindE (deployContract env False ''FetchTokenBalances''
                       (existingContract [''fetchTokenBalances'']) [AStr contractAdmin]) (\<lambda>ftb.
              bindE (deployContract env False ''FetchAaveDataWrapper''
                       (existingContract [''fetchAaveDataWrapper'']) [AStr contractAdmin]) (\<lambda>fadw.
              bindE (deployContract env False ''SmartWalletProxy''
                       (existingContract [''smartWalletProxy''])
                       [AStr contractAdmin, AStr (address impl), AUndefined, AStrs [], AStrs []]) (\<lambda>prox.
              (let deployedContracts =
                     \<lparr>smartWalletImplementation = impl, smartWalletProxy = prox,
                      fetchTokenBalances = ftb, fetchAaveDataWrapper = fadw,
                      swaps = \<lparr>uniSwap = None, uniSwapV3 = None,
                               swap_kyberProxy = None, swap_kyberDmm = None\<rparr>,
                      lendings = \<lparr>compoundLending = None, lending_aaveV1 = None,
                                  lending_aaveV2 = None, lending_aaveAMM = None\<rparr>\<rparr>
               in bindE (updateImplementation env multisig deployedContracts extraArgs) (\<lambda>_.
                  bindE (await env (Read (address prox) ''getAllSupportedPlatformWallets'')) (\<lambda>r.
                  bindE (asStrings r) (\<lambda>wallets.
                  throwE (TypeError ''networkConfig.supportedWallets is undefined''))))))))))))))"

definition runScript ::
  "env \<Rightarrow> string option \<Rightarrow> (string \<rightharpoonup> networkConfig) \<Rightarrow> string \<Rightarrow> existing \<Rightarrow> string option \<Rightarrow>
   KrystalContracts io" where
  "runScript env multisig NetworkConfig networkName existingContract extraArgs =
     (case loadModule NetworkConfig networkName of
        Inl e \<Rightarrow> throwE e
      | Inr (Entry networkConfig) \<Rightarrow> deploy env multisig networkConfig existingContract extraArgs
      | Inr Inherited \<Rightarrow> deployInherited env multisig existingContract extraArgs)"

subsection \<open>\<^verbatim>\<open>convertToAddressObject\<close>\<close>

text \<open>
  The values the function is applied to: \<^verbatim>\<open>undefined\<close>, a Contract, an array, or a
  plain record (its own enumerable properties in order). The result has strings where
  the function returns an address.
\<close>

datatype obj =
    Undefined
  | ContractObj contract
  | ArrayObj "obj list"
  | RecordObj "(string \<times> obj) list"

datatype addressObject =
    AUndefined
  | AString string
  | AArray "addressObject list"
  | ARecord "(string \<times> addressObject) list"

text \<open>\<^verbatim>\<open>Array.prototype.join\<close> with the default separator.\<close>

fun join :: "string list \<Rightarrow> string" where
  "join [] = []"
| "join [s] = s"
| "join (s # t # rest) = s @ '','' @ join (t # rest)"

text \<open>
  \<^verbatim>\<open>obj[k]\<close> turns \<^verbatim>\<open>k\<close> into a property key first: a string by \<^verbatim>\<open>String(k)\<close>,
  which is \<^verbatim>\<open>[object Object]\<close> for a contract or a record and the joined elements for
  an array (an undefined element joins as the empty string).
\<close>

fun propertyKey :: "obj \<Rightarrow> string" where
  "propertyKey Undefined = ''undefined''"
| "propertyKey (ContractObj c) = ''[object Object]''"
| "propertyKey (RecordObj kvs) = ''[object Object]''"
| "propertyKey (ArrayObj xs) =
     join (map (\<lambda>x. case x of Undefined \<Rightarrow> [] | _ \<Rightarrow> propertyKey x) xs)"

text \<open>
  \<^verbatim>\<open>xs[key]\<close> on an array: the element when the key is the decimal form of an index
  in range, and \<^verbatim>\<open>undefined\<close> for a key the array has no element under.
\<close>

definition arrayGet :: "obj list \<Rightarrow> string \<Rightarrow> obj" where
  "arrayGet xs key =
     (case find (\<lambda>i. toString i = key) [0 ..< length xs] of
        Some i \<Rightarrow> xs ! i
      | None \<Rightarrow> Undefined)"

lemma arrayGet_size: "size (arrayGet xs key) \<le> size_list size xs"
proof (cases "find (\<lambda>i. toString i = key) [0 ..< length xs]")
  case None
  then show ?thesis by (simp add: arrayGet_def)
next
  case (Some i)
  then have "i < length xs" by (auto simp: find_Some_iff)
  then have "xs ! i \<in> set xs" by simp
  then have "size (xs ! i) \<le> size_list size xs" by (simp add: size_list_estimation')
  with Some show ?thesis by (simp add: arrayGet_def)
qed

function convertToAddressObject :: "obj \<Rightarrow> addressObject" where
  "convertToAddressObject Undefined = AUndefined"
| "convertToAddressObject (ContractObj c) = AString (address c)"
| "convertToAddressObject (ArrayObj xs) =
     AArray (map (\<lambda>k. convertToAddressObject (arrayGet xs (propertyKey k))) xs)"
| "convertToAddressObject (RecordObj kvs) =
     ARecord (map (\<lambda>(k, v). (k, convertToAddressObject v)) kvs)"
  by pat_completeness auto
termination
proof (relation "measure size")
  show "wf (measure size)" by simp
next
  fix xs :: "obj list" and k
  have "size (arrayGet xs (propertyKey k)) \<le> size_list size xs" by (rule arrayGet_size)
  then show "(arrayGet xs (propertyKey k), ArrayObj xs) \<in> measure size" by simp
next
  fix kvs :: "(string \<times> obj) list" and x :: "string \<times> obj" and k v
  assume "x \<in> set kvs" "(k, v) = x"
  then have "(k, v) \<in> set kvs" by simp
  then have "size v < Suc (size_list (size_prod (\<lambda>_. 0) size) kvs)"
    by (induction kvs) auto
  then show "(v, RecordObj kvs) \<in> measure size" by simp
qed

section \<open>Observations on a history\<close>

text \<open>
  The transactions handed to the chain by \<^verbatim>\<open>executeTxn\<close>, each as its target and its
  call data: sent by a signer, or executed through the Safe.
\<close>

fun emittedBy :: "event \<Rightarrow> (string option \<times> calldata option) list" where
  "emittedBy (Ext (SendTransaction s t) r) = [(to t, data t)]"
| "emittedBy (Ext (SafeExecuteTransaction d) r) = [(Some (safe_to d), Some (safe_data d))]"
| "emittedBy ev = []"

definition emitted :: "history \<Rightarrow> (string option \<times> calldata option) list" where
  "emitted h = concat (map emittedBy h)"

fun isRead :: "event \<Rightarrow> bool" where
  "isRead (Ext (Read a g) r) = True"
| "isRead ev = False"

fun isDeployment :: "event \<Rightarrow> bool" where
  "isDeployment (Ext (FactoryDeploy n args) r) = True"
| "isDeployment ev = False"

fun isVerification :: "event \<Rightarrow> bool" where
  "isVerification (Ext (Sleep n) r) = True"
| "isVerification (Ext (Verify a args) r) = True"
| "isVerification ev = False"

fun isDirect :: "event \<Rightarrow> bool" where
  "isDirect (Ext (SendTransaction s t) r) = True"
| "isDirect ev = False"

fun isSafe :: "event \<Rightarrow> bool" where
  "isSafe (Ext (SafeCreate a s) r) = True"
| "isSafe (Ext (SafeCreateTransaction d) r) = True"
| "isSafe (Ext (SafeExecuteTransaction d) r) = True"
| "isSafe ev = False"

fun failure :: "event \<Rightarrow> error option" where
  "failure (Ext c (Inl e)) = Some e"
| "failure ev = None"

text \<open>
  Errors propagate: an external call that failed, other than the sleep and the
  verification that \<^verbatim>\<open>deployContract\<close> guards, is the last event of the run and its
  error is the run's result (\<open>None\<close> stands for a run that returned).
\<close>

fun propagated :: "error option \<Rightarrow> event list \<Rightarrow> bool" where
  "propagated r [] = True"
| "propagated r (ev # evs) =
     ((case failure ev of
         Some e \<Rightarrow> isVerification ev \<or> (evs = [] \<and> r = Some e)
       | None \<Rightarrow> True) \<and> propagated r evs)"

text \<open>
  Sequential submission. A transaction is submitted by a signer, through the Safe, or
  by a factory; a submission that succeeded is pending until a wait for one confirmation
  of its hash returns. \<open>seqRun\<close> follows a history and fails (\<open>None\<close>) when a
  transaction is submitted while another is pending, or a wait is for another hash.
\<close>

fun isSubmission :: "event \<Rightarrow> bool" where
  "isSubmission (Ext (SendTransaction s t) r) = True"
| "isSubmission (Ext (SafeExecuteTransaction d) r) = True"
| "isSubmission (Ext (FactoryDeploy n args) r) = True"
| "isSubmission ev = False"

fun submitted :: "event \<Rightarrow> string option" where
  "submitted (Ext (SendTransaction s t) (Inr (RTx tx))) = Some tx"
| "submitted (Ext (SafeExecuteTransaction d) (Inr (RTx tx))) = Some tx"
| "submitted (Ext (FactoryDeploy n args) (Inr (RDeployed a tx))) = Some tx"
| "submitted ev = None"

fun confirmed :: "event \<Rightarrow> string option" where
  "confirmed (Ext (WaitConfirm tx n) (Inr (RReceipt g))) = (if n = 1 then Some tx else None)"
| "confirmed ev = None"

definition seqStep :: "string option \<Rightarrow> event \<Rightarrow> string option option" where
  "seqStep pending ev =
     (if isSubmission ev then (if pending = None then Some (submitted ev) else None)
      else (case confirmed ev of
              Some tx \<Rightarrow> if pending = Some tx then Some None else None
            | None \<Rightarrow> Some pending))"

fun seqRun :: "string option \<Rightarrow> event list \<Rightarrow> string option option" where
  "seqRun pending [] = Some pending"
| "seqRun pending (ev # evs) =
     (case seqStep pending ev of None \<Rightarrow> None | Some p \<Rightarrow> seqRun p evs)"

text \<open>The outcome of a run, for the observations: the error, or \<open>None\<close> when it returned.\<close>

definition outcome :: "error + 'a \<Rightarrow> error option" where
  "outcome res = (case res of Inl e \<Rightarrow> Some e | Inr x \<Rightarrow> None)"

section \<open>What the claims speak of\<close>

subsection \<open>Set difference and the reconciling transactions\<close>

text \<open>\<open>difference S C\<close> lists the entries of \<open>S\<close> that are not in \<open>C\<close>, in the order of \<open>S\<close>.\<close>

definition difference :: "string list \<Rightarrow> string list \<Rightarrow> string list" where
  "difference S C = filter (\<lambda>a. a \<notin> set C) S"

text \<open>
  The transactions that reconcile the set \<open>S\<close> on the chain with the desired set \<open>C\<close>
  through the method \<open>f\<close> of contract \<open>c\<close>: one removal carrying \<open>S \<setminus> C\<close> when it is not
  empty, then one addition carrying \<open>C \<setminus> S\<close> when it is not empty.
\<close>

definition reconciliation ::
  "contract \<Rightarrow> string \<Rightarrow> string list \<Rightarrow> string list \<Rightarrow> (string option \<times> calldata option) list" where
  "reconciliation c f S C =
     (if difference S C = [] then []
      else [(Some (address c), Some (Calldata f [AStrs (difference S C), ABool False]))]) @
     (if difference C S = [] then []
      else [(Some (address c), Some (Calldata f [AStrs (difference C S), ABool True]))])"

text \<open>Two strings that differ at most in the case of hexadecimal letters.\<close>

definition hexCase :: "char \<Rightarrow> char \<Rightarrow> bool" where
  "hexCase c d =
     (c = d \<or> (c, d) \<in> set (zip ''abcdef'' ''ABCDEF'') \<or> (d, c) \<in> set (zip ''abcdef'' ''ABCDEF''))"

definition sameUpToCase :: "string \<Rightarrow> string \<Rightarrow> bool" where
  "sameUpToCase s t = list_all2 hexCase s t"

subsection \<open>An environment that answers\<close>

text \<open>
  In a responsive environment the calls that \<^verbatim>\<open>executeTxn\<close> and \<^verbatim>\<open>printInfo\<close> make
  succeed, whatever happened before: there is a signer, the Safe and the signer accept
  every transaction, and every wait returns a receipt.
\<close>

definition responsive :: "env \<Rightarrow> bool" where
  "responsive env =
     (\<forall>h. (\<exists>s ss. env h GetSigners = Inr (RStrs (s # ss))) \<and>
          (\<forall>s t. \<exists>tx. env h (SendTransaction s t) = Inr (RTx tx)) \<and>
          (\<forall>a s. \<exists>r. env h (SafeCreate a s) = Inr r) \<and>
          (\<forall>d. \<exists>r. env h (SafeCreateTransaction d) = Inr r) \<and>
          (\<forall>d. \<exists>tx. env h (SafeExecuteTransaction d) = Inr (RTx tx)) \<and>
          (\<forall>tx n. \<exists>g. env h (WaitConfirm tx n) = Inr (RReceipt g)))"

subsection \<open>Properties of every run\<close>

text \<open>
  \<open>holds P m\<close>: every run of \<open>m\<close> extends the history by events that satisfy \<open>P\<close>
  together with the run's outcome. A property is \<open>composable\<close> when it survives
  sequencing, and \<open>leaves P\<close> collects the calls the script is built from.
\<close>

definition holds :: "(error option \<Rightarrow> event list \<Rightarrow> bool) \<Rightarrow> 'a io \<Rightarrow> bool" where
  "holds P m = (\<forall>h res h'. m h = (res, h') \<longrightarrow> (\<exists>evs. h' = h @ evs \<and> P (outcome res) evs))"

definition composable :: "(error option \<Rightarrow> event list \<Rightarrow> bool) \<Rightarrow> bool" where
  "composable P =
     ((\<forall>r. P r []) \<and> (\<forall>r evs1 evs2. P None evs1 \<longrightarrow> P r evs2 \<longrightarrow> P r (evs1 @ evs2)))"

definition leaves :: "(error option \<Rightarrow> event list \<Rightarrow> bool) \<Rightarrow> env \<Rightarrow> string option \<Rightarrow> bool" where
  "leaves P env multisig =
     (composable P \<and>
      (\<forall>a g. holds P (await env (Read a g))) \<and>
      holds P (await env GetSigners) \<and>
      (\<forall>d. holds P (await env (GetAddress d))) \<and>
      (\<forall>t. holds P (bindE (executeTxn env multisig t) (printInfo env))) \<and>
      (\<forall>v n a args. holds P (deployContract env v n a args)))"

text \<open>
  A run is sequential when no transaction is submitted while another is pending, and a
  run that returns leaves none pending.
\<close>

definition sequential :: "error option \<Rightarrow> event list \<Rightarrow> bool" where
  "sequential r evs =
     (case r of None \<Rightarrow> seqRun None evs = Some None | Some e \<Rightarrow> seqRun None evs \<noteq> None)"

text \<open>The route of the transactions: none sent by a signer, or none through the Safe.\<close>

definition viaSafe :: "error option \<Rightarrow> event list \<Rightarrow> bool" where
  "viaSafe r evs = list_all (\<lambda>ev. \<not> isDirect ev) evs"

definition viaSigner :: "error option \<Rightarrow> event list \<Rightarrow> bool" where
  "viaSigner r evs = list_all (\<lambda>ev. \<not> isSafe ev) evs"

subsection \<open>A chain to run the script against\<close>

text \<open>
  An environment in which every call succeeds: one signer, a fixed answer to each read
  of the chain, and a hash for every transaction.
\<close>

definition exampleEnv :: "(string \<Rightarrow> string \<Rightarrow> response) \<Rightarrow> env" where
  "exampleEnv chain h c =
     Inr (case c of
            GetSigners \<Rightarrow> RStrs [''0xd1'']
          | GetAddress s \<Rightarrow> RStr s
          | FactoryDeploy n args \<Rightarrow> RDeployed (''0x'' @ n) (''0xcreate'' @ n)
          | WaitConfirm tx n \<Rightarrow> RReceipt 21000
          | Read a g \<Rightarrow> chain a g
          | SafeExecuteTransaction d \<Rightarrow> RTx ''0xsafetx''
          | SendTransaction s t \<Rightarrow> RTx ''0xtx''
          | _ \<Rightarrow> RUnit)"

text \<open>The same environment with one call that fails.\<close>

definition failingEnv :: "call \<Rightarrow> (string \<Rightarrow> string \<Rightarrow> response) \<Rightarrow> env" where
  "failingEnv bad chain h c =
     (if c = bad then Inl (Error ''reverted'') else exampleEnv chain h c)"

definition emptyConfig :: networkConfig where
  "emptyConfig =
     \<lparr>autoVerifyContract = False, supportedWallets = [],
      uniswap = None, uniswapV3 = None, kyberProxy = None, kyberDmm = None,
      compound = None, aaveV1 = None, aaveV2 = None, aaveAMM = None\<rparr>"

text \<open>
  A chain whose Compound adapter stores the comptroller
  \<^verbatim>\<open>0x3d9819210a31b4961b30ef54be2aed79b9c9cd3b\<close> in the first 20 bytes of its data, and
  a configuration that names the same comptroller.
\<close>

definition compoundChain :: "string \<Rightarrow> string \<Rightarrow> response" where
  "compoundChain a g =
     RStr ''0x3d9819210a31b4961b30ef54be2aed79b9c9cd3b4ddc2d193948926d02f9b1fe9e1daa0718270ed5''"

definition compoundExample :: compoundConfig where
  "compoundExample =
     \<lparr>compTroller = ''0x3d9819210a31b4961b30ef54be2aed79b9c9cd3b'',
      cNative = ''0x4ddc2d193948926d02f9b1fe9e1daa0718270ed5'',
      cTokens = []\<rparr>"

definition walletChain :: "string \<Rightarrow> string \<Rightarrow> response" where
  "walletChain a g =
     (if g = ''getAllSupportedPlatformWallets'' then RStrs [''0xAA01'', ''0xbb02'']
      else if g = ''getAllUniRouters'' then RStrs [''0xE1'']
      else RStrs [])"

definition exampleConfig :: networkConfig where
  "exampleConfig =
     emptyConfig\<lparr>supportedWallets := [''0xBB02'', ''0xcc03''],
                  uniswap := Some \<lparr>routers = [''0xe1'']\<rparr>,
                  uniswapV3 := Some \<lparr>routers = [''0xF2'']\<rparr>\<rparr>"

definition exampleContracts :: KrystalContracts where
  "exampleContracts =
     \<lparr>smartWalletImplementation = Contract ''0x1111'', smartWalletProxy = Contract ''0x2222'',
      fetchTokenBalances = Contract ''0x3333'', fetchAaveDataWrapper = Contract ''0x4444'',
      swaps = \<lparr>uniSwap = Some (Contract ''0xA5'' ), uniSwapV3 = Some (Contract ''0xb6''),
               swap_kyberProxy = None, swap_kyberDmm = None\<rparr>,
      lendings = \<lparr>compoundLending = None, lending_aaveV1 = None,
                  lending_aaveV2 = None, lending_aaveAMM = None\<rparr>\<rparr>"





definition staleChain :: "string \<Rightarrow> string \<Rightarrow> response" where
  "staleChain a g = (if g = ''implementation'' then RStr ''0x0000'' else RStrs [])"

definition someExisting :: existing where
  "someExisting path =
     (if path = [''smartWalletImplementation''] then Some ''0x1111''
      else if path = [''fetchTokenBalances''] then Some ''0x3333''
      else if path = [''fetchAaveDataWrapper''] then Some ''0x4444''
      else None)"

definition exampleDeployed :: KrystalContracts where
  "exampleDeployed =
     \<lparr>smartWalletImplementation = Contract ''0x1111'',
      smartWalletProxy = Contract ''0xSmartWalletProxy'',
      fetchTokenBalances = Contract ''0x3333'', fetchAaveDataWrapper = Contract ''0x4444'',
      swaps = \<lparr>uniSwap = None, uniSwapV3 = None, swap_kyberProxy = None, swap_kyberDmm = None\<rparr>,
      lendings = \<lparr>compoundLending = None, lending_aaveV1 = None,
                  lending_aaveV2 = None, lending_aaveAMM = None\<rparr>\<rparr>"

definition updateImplTxn :: txn where
  "updateImplTxn =
     \<lparr>to = Some ''0xSmartWalletProxy'', from = None,
      data = Some (Calldata ''updateNewImplementation'' [AStr ''0x1111'']),
      value = None, txGasLimit = Some 700000\<rparr>"

definition updateImplSafeTxn :: safeTransactionData where
  "updateImplSafeTxn =
     \<lparr>safe_to = ''0xSmartWalletProxy'', safe_value = ''0'',
      safe_data = Calldata ''updateNewImplementation'' [AStr ''0x1111''], operation = Call\<rparr>"

text \<open>The events of the example deployment up to the read of the implementation.\<close>

definition deployedEvents :: "string \<Rightarrow> event list" where
  "deployedEvents admin =
     [Ext GetSigners (Inr (RStrs [''0xd1''])),
      Ext (GetAddress ''0xd1'') (Inr (RStr ''0xd1'')),
      Ext (GetContractFactory ''SmartWalletImplementation'') (Inr RUnit),
      Ext (GetContractFactory ''FetchTokenBalances'') (Inr RUnit),
      Ext (GetContractFactory ''FetchAaveDataWrapper'') (Inr RUnit),
      Ext (GetContractFactory ''SmartWalletProxy'') (Inr RUnit),
      Ext (FactoryDeploy ''SmartWalletProxy''
             [AStr admin, AStr ''0x1111'', AStrs [], AStrs [], AStrs []])
        (Inr (RDeployed ''0xSmartWalletProxy'' ''0xcreateSmartWalletProxy'')),
      Ext (WaitDeployed ''0xSmartWalletProxy'') (Inr RUnit),
      Ext (WaitConfirm ''0xcreateSmartWalletProxy'' 1) (Inr (RReceipt 21000)),
      Ext (Read ''0xSmartWalletProxy'' ''implementation'') (Inr (RStr ''0x0000''))]"

definition remainingReads :: "event list" where
  "remainingReads =
     [Ext (Read ''0xSmartWalletProxy'' ''getAllSupportedPlatformWallets'') (Inr (RStrs [])),
      Ext (Read ''0xSmartWalletProxy'' ''getAllSupportedSwaps'') (Inr (RStrs [])),
      Ext (Read ''0xSmartWalletProxy'' ''getAllSupportedLendings'') (Inr (RStrs []))]"

definition walletChainB :: "string \<Rightarrow> string \<Rightarrow> response" where
  "walletChainB a g =
     (if g = ''getAllSupportedPlatformWallets'' then RStrs [''0xaa01'', ''0xBB02'']
      else if g = ''getAllUniRouters'' then RStrs [''0xe1'']
      else RStrs [])"

definition exampleConfigB :: networkConfig where
  "exampleConfigB =
     emptyConfig\<lparr>supportedWallets := [''0xbb02'', ''0xCC03''],
                  uniswap := Some \<lparr>routers = [''0xE1'']\<rparr>\<rparr>"

text \<open>A configuration that names the wallets of \<open>walletChain\<close> in the other case.\<close>

definition exampleConfigC :: networkConfig where
  "exampleConfigC = emptyConfig\<lparr>supportedWallets := [''0xaa01'', ''0xBB02'']\<rparr>"

subsection \<open>Chains and configurations to reconcile\<close>

text \<open>A chain and a configuration that differ in every set the script reconciles.\<close>

definition reconcileChain :: "string \<Rightarrow> string \<Rightarrow> response" where
  "reconcileChain a g =
     (if g = ''getAllSupportedPlatformWallets'' then RStrs [''0xAA01'', ''0xbb02'']
      else if g = ''getAllSupportedSwaps'' then RStrs [''0xDD04'']
      else if g = ''getAllSupportedLendings'' then RStrs [''0xEE05'']
      else RStrs [''0xE1''])"

definition reconcileConfig :: networkConfig where
  "reconcileConfig =
     emptyConfig\<lparr>supportedWallets := [''0xBB02'', ''0xcc03''],
                  uniswap := Some \<lparr>routers = [''0xF2'']\<rparr>,
                  uniswapV3 := Some \<lparr>routers = [''0xF3'']\<rparr>\<rparr>"

definition reconcileContracts :: KrystalContracts where
  "reconcileContracts =
     \<lparr>smartWalletImplementation = Contract ''0x1111'', smartWalletProxy = Contract ''0x2222'',
      fetchTokenBalances = Contract ''0x3333'', fetchAaveDataWrapper = Contract ''0x4444'',
      swaps = \<lparr>uniSwap = Some (Contract ''0xA5''), uniSwapV3 = Some (Contract ''0xb6''),
               swap_kyberProxy = None, swap_kyberDmm = None\<rparr>,
      lendings = \<lparr>compoundLending = Some (Contract ''0xC7''), lending_aaveV1 = None,
                  lending_aaveV2 = None, lending_aaveAMM = None\<rparr>\<rparr>"



section \<open>Lemmas\<close>

declare toString.simps [simp del]

lemmas run_defs = bindE_def returnE_def throwE_def await_def catchE_def log_def asString_def
  asStrings_def asTx_def asReceipt_def asDeployed_def

lemmas step_defs = firstSigner_def printInfo_def executeTxn_def truthy_def
  populateTransaction_def updateAddressSet_def

lemmas example_defs = exampleEnv_def failingEnv_def emptyConfig_def

lemma emitted_append: "emitted (xs @ ys) = emitted xs @ emitted ys"
  by (simp add: emitted_def)

lemma emitted_Nil: "emitted [] = []"
  by (simp add: emitted_def)

lemma emitted_Cons: "emitted (ev # evs) = emittedBy ev @ emitted evs"
  by (simp add: emitted_def)

subsection \<open>Runs that return\<close>

lemma bindE_Inr:
  assumes "bindE m f h = (Inr y, h'')"
  obtains x h' where "m h = (Inr x, h')" and "f x h' = (Inr y, h'')"
  using assms by (auto simp: bindE_def split: prod.splits sum.splits)

lemma await_Inr:
  assumes "await env c h = (Inr r, h')"
  shows "env h c = Inr r \<and> h' = h @ [Ext c (Inr r)]"
  using assms by (auto simp: await_def)

lemma firstSigner_Inr:
  assumes "firstSigner env h = (Inr s, h')"
  shows "\<exists>ss. h' = h @ [Ext GetSigners (Inr (RStrs ss))] \<and> s = (case ss of [] \<Rightarrow> None | x # _ \<Rightarrow> Some x)"
  using assms
  by (auto simp: firstSigner_def run_defs split: sum.splits response.splits)

lemma printInfo_Inr:
  assumes "printInfo env tx h = (Inr u, h')"
  shows "\<exists>g. h' = h @ [Ext (WaitConfirm tx 1) (Inr (RReceipt g))]"
  using assms
  by (auto simp: printInfo_def run_defs split: sum.splits response.splits)

subsection \<open>Keys of an array\<close>

lemma toString_last: "last (toString n) = char_of (48 + n mod 10)"
  by (subst toString.simps) simp

lemma toString_not_object: "toString n \<noteq> ''[object Object]''"
proof
  assume "toString n = ''[object Object]''"
  then have "last (toString n) = CHR '']''" by simp
  then have "char_of (48 + n mod 10) = CHR '']''" by (simp add: toString_last)
  then have "of_char (char_of (48 + n mod 10) :: char) = (of_char (CHR '']'') :: nat)" by simp
  moreover have "48 + n mod 10 < 256" by arith
  ultimately show False by simp
qed

lemma arrayGet_object: "arrayGet xs ''[object Object]'' = Undefined"
proof -
  have "find (\<lambda>i. toString i = ''[object Object]'') js = None" for js
    by (induction js) (simp_all add: toString_not_object)
  then show ?thesis by (simp add: arrayGet_def)
qed

text \<open>
  Whatever contracts an array holds, \<^verbatim>\<open>obj.map((k) => convertToAddressObject(obj[k]))\<close>
  looks each of them up as a key of the array, finds nothing, and returns an array of
  \<^verbatim>\<open>undefined\<close> of the same length.
\<close>

lemma convertToAddressObject_contracts:
  "convertToAddressObject (ArrayObj (map ContractObj cs)) = AArray (replicate (length cs) AUndefined)"
  by (simp add: arrayGet_object map_replicate_const comp_def)

text \<open>A record keeps its keys, in order.\<close>

lemma convertToAddressObject_keys:
  "convertToAddressObject (RecordObj kvs) = ARecord kvs' \<Longrightarrow> map fst kvs' = map fst kvs"
  by (auto simp: case_prod_unfold comp_def)

subsection \<open>The transactions of a run that returns\<close>

lemma executeTxn_safe_Inr:
  assumes "truthy multisig = Some safeAddress" and "executeTxn env multisig t h = (Inr tx, h')"
  shows "\<exists>ss r1 r2 d. data t = Some d \<and>
     h' = h @ [Ext GetSigners (Inr (RStrs ss)),
               Ext (SafeCreate safeAddress (case ss of [] \<Rightarrow> None | s # _ \<Rightarrow> Some s)) (Inr r1),
               Ext (SafeCreateTransaction
                      \<lparr>safe_to = (case to t of Some a \<Rightarrow> a | None \<Rightarrow> zeroAddress),
                       safe_value = (case value t of Some v \<Rightarrow> toString v | None \<Rightarrow> ''0''),
                       safe_data = d, operation = Call\<rparr>) (Inr r2),
               Ext (SafeExecuteTransaction
                      \<lparr>safe_to = (case to t of Some a \<Rightarrow> a | None \<Rightarrow> zeroAddress),
                       safe_value = (case value t of Some v \<Rightarrow> toString v | None \<Rightarrow> ''0''),
                       safe_data = d, operation = Call\<rparr>) (Inr (RTx tx))]"
  using assms
  by (auto simp: executeTxn_def firstSigner_def run_defs Let_def
      split: sum.splits response.splits option.splits)

lemma executeTxn_direct_Inr:
  assumes "truthy multisig = None" and "executeTxn env multisig t h = (Inr tx, h')"
  shows "\<exists>s ss. h' = h @ [Ext GetSigners (Inr (RStrs (s # ss))),
                            Ext (SendTransaction s t) (Inr (RTx tx))]"
  using assms
  by (auto simp: executeTxn_def firstSigner_def run_defs
      split: sum.splits response.splits option.splits list.splits)

lemma executeTxn_Inr:
  assumes "executeTxn env multisig t h = (Inr tx, h')" and "to t = Some a" and "data t = Some d"
  shows "\<exists>evs. h' = h @ evs \<and> emitted evs = [(Some a, Some d)] \<and> list_all (\<lambda>ev. \<not> isRead ev) evs"
proof (cases "truthy multisig")
  case None
  from executeTxn_direct_Inr[OF None assms(1)] assms(2,3) show ?thesis
    by (auto simp: emitted_def)
next
  case (Some safeAddress)
  from executeTxn_safe_Inr[OF Some assms(1)] assms(2,3) show ?thesis
    by (auto simp: emitted_def)
qed

text \<open>A populated transaction that is executed and confirmed: one transaction, no read.\<close>

lemma sent_Inr:
  assumes "bindE (executeTxn env multisig (populateTransaction c f args g s)) (printInfo env) h
             = (Inr u, h')"
  shows "\<exists>evs. h' = h @ evs \<and> emitted evs = [(Some (address c), Some (Calldata f args))] \<and>
           list_all (\<lambda>ev. \<not> isRead ev) evs"
proof -
  from assms obtain tx h1
    where 1: "executeTxn env multisig (populateTransaction c f args g s) h = (Inr tx, h1)"
      and 2: "printInfo env tx h1 = (Inr u, h')"
    by (elim bindE_Inr)
  from executeTxn_Inr[OF 1, of "address c" "Calldata f args"] obtain evs
    where "h1 = h @ evs" "emitted evs = [(Some (address c), Some (Calldata f args))]"
      "list_all (\<lambda>ev. \<not> isRead ev) evs"
    by (auto simp: populateTransaction_def)
  moreover from printInfo_Inr[OF 2] obtain g
    where "h' = h1 @ [Ext (WaitConfirm tx 1) (Inr (RReceipt g))]" by blast
  ultimately show ?thesis by (simp add: emitted_def)
qed

lemma updateAddressSet_Inr:
  assumes "updateAddressSet env multisig c f toBeRemoved toBeAdded extraArgs h = (Inr u, h')"
  shows "\<exists>evs. h' = h @ evs \<and>
           emitted evs =
             (if toBeRemoved = [] then []
              else [(Some (address c), Some (Calldata f [AStrs toBeRemoved, ABool False]))]) @
             (if toBeAdded = [] then []
              else [(Some (address c), Some (Calldata f [AStrs toBeAdded, ABool True]))])"
proof -
  from assms obtain h1 where
    1: "(if length toBeRemoved \<noteq> 0
         then bindE (executeTxn env multisig
                (populateTransaction c f [AStrs toBeRemoved, ABool False] (Some gasLimit) extraArgs))
                (printInfo env)
         else returnE ()) h = (Inr (), h1)"
    and 2: "(if length toBeAdded \<noteq> 0
         then bindE (executeTxn env multisig
                (populateTransaction c f [AStrs toBeAdded, ABool True] (Some gasLimit) extraArgs))
                (printInfo env)
         else returnE ()) h1 = (Inr u, h')"
    unfolding updateAddressSet_def by (elim bindE_Inr) simp
  have a: "\<exists>evs. h1 = h @ evs \<and> emitted evs =
             (if toBeRemoved = [] then []
              else [(Some (address c), Some (Calldata f [AStrs toBeRemoved, ABool False]))])"
  proof (cases "toBeRemoved = []")
    case True
    with 1 show ?thesis by (simp add: returnE_def emitted_def)
  next
    case False
    with 1 sent_Inr show ?thesis by fastforce
  qed
  have b: "\<exists>evs. h' = h1 @ evs \<and> emitted evs =
             (if toBeAdded = [] then []
              else [(Some (address c), Some (Calldata f [AStrs toBeAdded, ABool True]))])"
  proof (cases "toBeAdded = []")
    case True
    with 2 show ?thesis by (simp add: returnE_def emitted_def)
  next
    case False
    with 2 sent_Inr show ?thesis by fastforce
  qed
  from a b show ?thesis by (auto simp: emitted_append)
qed

text \<open>A step that reads a list from the chain and reconciles it.\<close>

lemma reconcile_Inr:
  assumes "bindE (await env (Read a g)) (\<lambda>r. bindE (asStrings r) (\<lambda>onChain.
             updateAddressSet env multisig c f
               (filter (\<lambda>add. \<not> (add \<in> set C)) (map toLowerCase onChain))
               (filter (\<lambda>add. \<not> (add \<in> set (map toLowerCase onChain))) C) extraArgs)) h
           = (Inr u, h')"
  shows "\<exists>S evs. env h (Read a g) = Inr (RStrs S) \<and>
           h' = h @ Ext (Read a g) (Inr (RStrs S)) # evs \<and>
           emitted evs = reconciliation c f (map toLowerCase S) C"
proof -
  from assms obtain r h1 S h2 where 1: "await env (Read a g) h = (Inr r, h1)"
    and 2: "asStrings r h1 = (Inr S, h2)"
    and 3: "updateAddressSet env multisig c f
               (filter (\<lambda>add. \<not> (add \<in> set C)) (map toLowerCase S))
               (filter (\<lambda>add. \<not> (add \<in> set (map toLowerCase S))) C) extraArgs h2 = (Inr u, h')"
    by (elim bindE_Inr)
  from 2 have r: "r = RStrs S" "h2 = h1"
    by (auto simp: asStrings_def returnE_def throwE_def split: response.splits)
  from await_Inr[OF 1] r have e: "env h (Read a g) = Inr (RStrs S)"
    and h1: "h1 = h @ [Ext (Read a g) (Inr (RStrs S))]" by simp_all
  from updateAddressSet_Inr[OF 3] obtain evs where "h' = h2 @ evs"
    and "emitted evs = reconciliation c f (map toLowerCase S) C"
    by (auto simp: reconciliation_def difference_def)
  with e h1 r show ?thesis by auto
qed

subsection \<open>Properties that hold of every run\<close>

lemma holds_returnE: "composable P \<Longrightarrow> holds P (returnE x)"
  by (simp add: holds_def composable_def returnE_def)

lemma holds_throwE: "composable P \<Longrightarrow> holds P (throwE e)"
  by (simp add: holds_def composable_def throwE_def)

lemma holds_bindE:
  assumes "composable P" and "holds P m" and "\<And>x. holds P (f x)"
  shows "holds P (bindE m f)"
  unfolding holds_def
proof (intro allI impI)
  fix h res h'
  assume run: "bindE m f h = (res, h')"
  obtain r1 h1 where m: "m h = (r1, h1)" by (cases "m h")
  from assms(2) m obtain evs1 where h1: "h1 = h @ evs1" and p1: "P (outcome r1) evs1"
    unfolding holds_def by blast
  show "\<exists>evs. h' = h @ evs \<and> P (outcome res) evs"
  proof (cases r1)
    case (Inl e)
    with run m have "res = Inl e" "h' = h1" by (simp_all add: bindE_def)
    with h1 p1 Inl show ?thesis by (auto simp: outcome_def)
  next
    case (Inr x)
    with run m have "f x h1 = (res, h')" by (simp add: bindE_def)
    with assms(3) obtain evs2 where h2: "h' = h1 @ evs2" and p2: "P (outcome res) evs2"
      unfolding holds_def by blast
    from p1 Inr have "P None evs1" by (simp add: outcome_def)
    with p2 assms(1) have "P (outcome res) (evs1 @ evs2)" by (simp add: composable_def)
    with h1 h2 show ?thesis by auto
  qed
qed

lemma holds_asString: "composable P \<Longrightarrow> holds P (asString r)"
  by (cases r) (simp_all add: asString_def holds_returnE holds_throwE)

lemma holds_asStrings: "composable P \<Longrightarrow> holds P (asStrings r)"
  by (cases r) (simp_all add: asStrings_def holds_returnE holds_throwE)

lemma leaves_composable: "leaves P env ms \<Longrightarrow> composable P"
  by (simp add: leaves_def)

lemma holds_read_string:
  assumes "leaves P env ms" and "\<And>x. holds P (f x)"
  shows "holds P (bindE (await env (Read a g)) (\<lambda>r. bindE (asString r) f))"
  using assms by (intro holds_bindE holds_asString) (simp_all add: leaves_def)

lemma holds_read_strings:
  assumes "leaves P env ms" and "\<And>x. holds P (f x)"
  shows "holds P (bindE (await env (Read a g)) (\<lambda>r. bindE (asStrings r) f))"
  using assms by (intro holds_bindE holds_asStrings) (simp_all add: leaves_def)

lemma holds_block: "leaves P env ms \<Longrightarrow> holds P (bindE (executeTxn env ms t) (printInfo env))"
  by (simp add: leaves_def)

lemma holds_firstSigner: "leaves P env ms \<Longrightarrow> holds P (firstSigner env)"
  unfolding firstSigner_def
  by (intro holds_bindE holds_asStrings holds_returnE) (simp_all add: leaves_def)

lemma holds_updateAddressSet:
  "leaves P env ms \<Longrightarrow> holds P (updateAddressSet env ms c f rem add extra)"
  unfolding updateAddressSet_def
  by (intro holds_bindE) (simp_all add: holds_block holds_returnE leaves_composable)

lemma holds_updateImplementation:
  "leaves P env ms \<Longrightarrow> holds P (updateImplementation env ms k extra)"
  unfolding updateImplementation_def
  by (rule holds_read_string) (simp_all add: holds_block holds_returnE leaves_composable)

lemma holds_updateSupportedPlatformWallets:
  "leaves P env ms \<Longrightarrow> holds P (updateSupportedPlatformWallets env ms cfg k extra)"
  unfolding updateSupportedPlatformWallets_def Let_def
  by (rule holds_read_strings) (simp_all add: holds_updateAddressSet)

lemma holds_updateSupportedSwaps:
  "leaves P env ms \<Longrightarrow> holds P (updateSupportedSwaps env ms k extra)"
  unfolding updateSupportedSwaps_def Let_def
  by (rule holds_read_strings) (simp_all add: holds_updateAddressSet)

lemma holds_updateSupportedLendings:
  "leaves P env ms \<Longrightarrow> holds P (updateSupportedLendings env ms k extra)"
  unfolding updateSupportedLendings_def Let_def
  by (rule holds_read_strings) (simp_all add: holds_updateAddressSet)

lemma holds_updateProxy:
  "leaves P env ms \<Longrightarrow> holds P (updateProxy env ms cfg k extra)"
  unfolding updateProxy_def
  by (intro holds_bindE holds_updateImplementation holds_updateSupportedPlatformWallets
      holds_updateSupportedSwaps holds_updateSupportedLendings leaves_composable)

lemma holds_linkChild:
  "leaves P env ms \<Longrightarrow> holds P (linkChild env ms prox extra entry)"
proof (cases entry)
  case None
  assume "leaves P env ms"
  with None show ?thesis by (simp add: linkChild_def holds_returnE leaves_composable)
next
  case (Some c)
  assume l: "leaves P env ms"
  show ?thesis unfolding linkChild_def Some option.case
    by (rule holds_read_string[OF l])
      (simp add: holds_block[OF l] holds_returnE[OF leaves_composable[OF l]])
qed

lemma holds_linkChildren:
  "leaves P env ms \<Longrightarrow> holds P (linkChildren env ms prox extra entries)"
  by (induction entries) (auto intro!: holds_bindE holds_linkChild holds_returnE leaves_composable)

lemma holds_updateChildContracts:
  "leaves P env ms \<Longrightarrow> holds P (updateChildContracts env ms k extra)"
  unfolding updateChildContracts_def Let_def by (rule holds_linkChildren)

lemma holds_updateUniSwap:
  assumes l: "leaves P env ms"
  shows "holds P (updateUniSwap env ms cfg c extra)"
proof (cases "\<exists>uni u. c = Some uni \<and> uniswap cfg = Some u")
  case True
  then obtain uni u where "c = Some uni" "uniswap cfg = Some u" by blast
  then show ?thesis unfolding updateUniSwap_def Let_def
    by (simp add: holds_read_strings[OF l] holds_updateAddressSet[OF l])
next
  case False
  then have "updateUniSwap env ms cfg c extra = returnE ()"
    by (auto simp: updateUniSwap_def split: option.splits)
  then show ?thesis by (simp add: holds_returnE leaves_composable[OF l])
qed

lemma holds_case_option:
  "holds P a \<Longrightarrow> (\<And>x. holds P (b x)) \<Longrightarrow> holds P (case v of None \<Rightarrow> a | Some x \<Rightarrow> b x)"
  by (cases v) simp_all

lemma holds_updateUniSwapV3:
  assumes l: "leaves P env ms"
  shows "holds P (updateUniSwapV3 env ms cfg c extra)"
  unfolding updateUniSwapV3_def Let_def prod.case
  by (intro holds_case_option holds_read_strings[OF l] holds_updateAddressSet[OF l]
      holds_returnE[OF leaves_composable[OF l]])

lemma holds_updateKyberProxy:
  assumes l: "leaves P env ms"
  shows "holds P (updateKyberProxy env ms cfg c extra)"
  unfolding updateKyberProxy_def prod.case
  by (intro holds_case_option holds_read_string[OF l] holds_returnE[OF leaves_composable[OF l]])
    (simp add: holds_block[OF l] holds_returnE[OF leaves_composable[OF l]])

lemma holds_updateKyberDmm:
  assumes l: "leaves P env ms"
  shows "holds P (updateKyberDmm env ms cfg c extra)"
  unfolding updateKyberDmm_def prod.case
  by (intro holds_case_option holds_read_string[OF l] holds_returnE[OF leaves_composable[OF l]])
    (simp add: holds_block[OF l] holds_returnE[OF leaves_composable[OF l]])

lemma holds_updateCompoundLending:
  assumes l: "leaves P env ms"
  shows "holds P (updateCompoundLending env ms cfg c extra)"
  unfolding updateCompoundLending_def prod.case Let_def
  by (intro holds_case_option holds_read_string[OF l] holds_returnE[OF leaves_composable[OF l]])
    (simp add: holds_block[OF l] holds_returnE[OF leaves_composable[OF l]])

lemma holds_updateAaveV1Lending:
  assumes l: "leaves P env ms"
  shows "holds P (updateAaveV1Lending env ms cfg c extra)"
  unfolding updateAaveV1Lending_def prod.case
  by (intro holds_case_option holds_block[OF l] holds_returnE[OF leaves_composable[OF l]])

lemma holds_updateAaveV2Lending:
  assumes l: "leaves P env ms"
  shows "holds P (updateAaveV2Lending env ms c a extra)"
  unfolding updateAaveV2Lending_def prod.case
  by (intro holds_case_option holds_block[OF l] holds_returnE[OF leaves_composable[OF l]])

lemma holds_deployContract: "leaves P env ms \<Longrightarrow> holds P (deployContract env v n a args)"
  by (simp add: leaves_def)

lemma holds_deployContracts:
  assumes l: "leaves P env ms"
  shows "holds P (deployContracts env cfg existingContract contractAdmin)"
  unfolding deployContracts_def Let_def
  by (intro holds_bindE holds_case_option holds_deployContract[OF l]
      holds_returnE[OF leaves_composable[OF l]] leaves_composable[OF l])

lemma holds_deploy:
  assumes l: "leaves P env ms"
  shows "holds P (deploy env ms cfg existingContract extra)"
  unfolding deploy_def
  by (intro holds_bindE holds_case_option holds_firstSigner[OF l] holds_asString
      holds_throwE holds_returnE holds_deployContracts[OF l] holds_updateProxy[OF l]
      holds_updateChildContracts[OF l] holds_updateUniSwap[OF l] holds_updateUniSwapV3[OF l]
      holds_updateKyberProxy[OF l] holds_updateKyberDmm[OF l] holds_updateCompoundLending[OF l]
      holds_updateAaveV1Lending[OF l] holds_updateAaveV2Lending[OF l] leaves_composable[OF l])
    (simp add: l[unfolded leaves_def])

subsection \<open>Sequential submission\<close>

lemma seqRun_append:
  "seqRun p (xs @ ys) = (case seqRun p xs of None \<Rightarrow> None | Some q \<Rightarrow> seqRun q ys)"
  by (induction xs arbitrary: p) (auto split: option.splits)

lemma composable_sequential: "composable sequential"
  by (auto simp: composable_def sequential_def seqRun_append split: option.splits)

lemma holds_sequential_neutral:
  assumes "\<And>r. \<not> isSubmission (Ext c r)" and "\<And>r. confirmed (Ext c r) = None"
  shows "holds sequential (await env c)"
  using assms
  by (auto simp: holds_def await_def sequential_def seqStep_def outcome_def split: sum.splits)

lemma sequential_block: "holds sequential (bindE (executeTxn env ms t) (printInfo env))"
  by (auto simp: holds_def sequential_def outcome_def executeTxn_def printInfo_def firstSigner_def
      run_defs seqStep_def Let_def
      split: sum.splits option.splits response.splits list.splits prod.splits)

lemma sequential_deployContract: "holds sequential (deployContract env v n a args)"
  by (auto simp: holds_def sequential_def outcome_def deployContract_def printInfo_def
      run_defs seqStep_def Let_def
      split: sum.splits option.splits response.splits list.splits prod.splits if_splits)

subsection \<open>The steps that reconcile a set\<close>

lemma set_difference: "set (difference S C) = set S - set C"
  by (auto simp: difference_def)

lemma updateSupportedPlatformWallets_Inr:
  assumes "updateSupportedPlatformWallets env multisig cfg k extraArgs h = (Inr u, h')"
  shows "\<exists>S evs.
           env h (Read (address (smartWalletProxy k)) ''getAllSupportedPlatformWallets'') = Inr (RStrs S) \<and>
           h' = h @ Ext (Read (address (smartWalletProxy k)) ''getAllSupportedPlatformWallets'')
                      (Inr (RStrs S)) # evs \<and>
           emitted evs = reconciliation (smartWalletProxy k) ''updateSupportedPlatformWallets''
                           (map toLowerCase S) (map toLowerCase (supportedWallets cfg))"
  using assms unfolding updateSupportedPlatformWallets_def Let_def by (rule reconcile_Inr)

lemma updateSupportedSwaps_Inr:
  assumes "updateSupportedSwaps env multisig k extraArgs h = (Inr u, h')"
  shows "\<exists>S evs.
           env h (Read (address (smartWalletProxy k)) ''getAllSupportedSwaps'') = Inr (RStrs S) \<and>
           h' = h @ Ext (Read (address (smartWalletProxy k)) ''getAllSupportedSwaps'')
                      (Inr (RStrs S)) # evs \<and>
           emitted evs = reconciliation (smartWalletProxy k) ''updateSupportedSwaps''
                           (map toLowerCase S)
                           (map (\<lambda>c. toLowerCase (address c)) (swapValues (swaps k)))"
  using assms unfolding updateSupportedSwaps_def Let_def by (rule reconcile_Inr)

lemma updateSupportedLendings_Inr:
  assumes "updateSupportedLendings env multisig k extraArgs h = (Inr u, h')"
  shows "\<exists>S evs.
           env h (Read (address (smartWalletProxy k)) ''getAllSupportedLendings'') = Inr (RStrs S) \<and>
           h' = h @ Ext (Read (address (smartWalletProxy k)) ''getAllSupportedLendings'')
                      (Inr (RStrs S)) # evs \<and>
           emitted evs = reconciliation (smartWalletProxy k) ''updateSupportedLendings''
                           (map toLowerCase S)
                           (map (\<lambda>c. toLowerCase (address c)) (lendingValues (lendings k)))"
  using assms unfolding updateSupportedLendings_def Let_def by (rule reconcile_Inr)

lemma updateUniSwap_Inr:
  assumes "updateUniSwap env multisig cfg (Some uni) extraArgs h = (Inr u, h')"
    and "uniswap cfg = Some ucfg"
  shows "\<exists>S evs.
           env h (Read (address uni) ''getAllUniRouters'') = Inr (RStrs S) \<and>
           h' = h @ Ext (Read (address uni) ''getAllUniRouters'') (Inr (RStrs S)) # evs \<and>
           emitted evs = reconciliation uni ''updateUniRouters''
                           (map toLowerCase S) (map toLowerCase (routers ucfg))"
proof -
  from assms have "bindE (await env (Read (address uni) ''getAllUniRouters'')) (\<lambda>r.
      bindE (asStrings r) (\<lambda>onChain.
        updateAddressSet env multisig uni ''updateUniRouters''
          (filter (\<lambda>add. \<not> (add \<in> set (map toLowerCase (routers ucfg)))) (map toLowerCase onChain))
          (filter (\<lambda>add. \<not> (add \<in> set (map toLowerCase onChain))) (map toLowerCase (routers ucfg)))
          extraArgs)) h = (Inr u, h')"
    by (simp only: updateUniSwap_def Let_def prod.case option.case)
  then show ?thesis by (rule reconcile_Inr)
qed

lemma updateUniSwapV3_Inr:
  assumes "updateUniSwapV3 env multisig cfg (Some uni) extraArgs h = (Inr u, h')"
    and "uniswapV3 cfg = Some ucfg"
  shows "\<exists>S evs.
           env h (Read (address uni) ''getAllUniRouters'') = Inr (RStrs S) \<and>
           h' = h @ Ext (Read (address uni) ''getAllUniRouters'') (Inr (RStrs S)) # evs \<and>
           emitted evs = reconciliation uni ''updateUniRouters''
                           (map toLowerCase S) (map toLowerCase (routers ucfg))"
proof -
  from assms have "bindE (await env (Read (address uni) ''getAllUniRouters'')) (\<lambda>r.
      bindE (asStrings r) (\<lambda>onChain.
        updateAddressSet env multisig uni ''updateUniRouters''
          (filter (\<lambda>add. \<not> (add \<in> set (map toLowerCase (routers ucfg)))) (map toLowerCase onChain))
          (filter (\<lambda>add. \<not> (add \<in> set (map toLowerCase onChain))) (map toLowerCase (routers ucfg)))
          extraArgs)) h = (Inr u, h')"
    by (simp only: updateUniSwapV3_def Let_def prod.case option.case)
  then show ?thesis by (rule reconcile_Inr)
qed


lemmas chain_defs = walletChain_def exampleConfig_def exampleContracts_def

subsection \<open>The steps that guard one value\<close>








lemma run_pair: "fst (m h) = Inr () \<Longrightarrow> m h = (Inr (), snd (m h))"
  by (simp add: prod_eq_iff)

subsection \<open>Deployment\<close>




lemma deployContract_verification:
  assumes "deployContract env autoVerify contractName contractAddress args h = (res, h @ evs)"
    and "ev \<in> set evs" and "isVerification ev" and "failure ev = Some e"
  shows "\<exists>addr tx pre.
           res = Inr (Contract addr) \<and>
           evs = pre @ [ev, Log 2 ''failed to verify contract'' e] \<and>
           list_all (\<lambda>x. failure x = None) pre \<and>
           Ext (FactoryDeploy contractName args) (Inr (RDeployed addr tx)) \<in> set pre"
  using assms
  apply (simp add: deployContract_def truthy_def run_defs printInfo_def
      split: sum.splits response.splits if_splits prod.splits option.splits)
  apply (auto)
  done

subsection \<open>Errors propagate\<close>

lemma propagated_append:
  "propagated None xs \<Longrightarrow> propagated r ys \<Longrightarrow> propagated r (xs @ ys)"
  by (induction xs) (auto split: option.splits)

lemma composable_propagated: "composable propagated"
  by (simp add: composable_def propagated_append)

lemma propagated_nth:
  "propagated r evs \<Longrightarrow> i < length evs \<Longrightarrow> failure (evs ! i) = Some e \<Longrightarrow>
   \<not> isVerification (evs ! i) \<Longrightarrow> r = Some e \<and> Suc i = length evs"
proof (induction evs arbitrary: i)
  case Nil
  then show ?case by simp
next
  case (Cons ev evs)
  show ?case
  proof (cases i)
    case 0
    with Cons.prems show ?thesis by auto
  next
    case (Suc j)
    with Cons.prems Cons.IH[of j] show ?thesis by auto
  qed
qed

lemma propagated_await: "holds propagated (await env c)"
  by (auto simp: holds_def await_def outcome_def split: sum.splits)

lemma propagated_block: "holds propagated (bindE (executeTxn env ms t) (printInfo env))"
  by (auto simp: holds_def outcome_def executeTxn_def printInfo_def firstSigner_def
      run_defs Let_def
      split: sum.splits option.splits response.splits list.splits prod.splits)

lemma propagated_deployContract: "holds propagated (deployContract env v n a args)"
  by (auto simp: holds_def outcome_def deployContract_def printInfo_def
      run_defs Let_def
      split: sum.splits option.splits response.splits list.splits prod.splits if_splits)

lemma leaves_propagated: "leaves propagated env ms"
  by (simp add: leaves_def composable_propagated propagated_await propagated_block
      propagated_deployContract)

lemma deploy_propagated:
  assumes "snd (deploy env multisig cfg existingContract extraArgs h) = h @ evs"
  shows "propagated (outcome (fst (deploy env multisig cfg existingContract extraArgs h))) evs"
proof -
  from holds_deploy[OF leaves_propagated, of env multisig cfg existingContract extraArgs]
  obtain evs' where "snd (deploy env multisig cfg existingContract extraArgs h) = h @ evs'"
    and "propagated (outcome (fst (deploy env multisig cfg existingContract extraArgs h))) evs'"
    unfolding holds_def by (metis prod.collapse)
  with assms show ?thesis by simp
qed

subsection \<open>Sequential submission, for the whole run\<close>

lemma leaves_sequential: "leaves sequential env ms"
  by (simp add: leaves_def composable_sequential holds_sequential_neutral sequential_block
      sequential_deployContract)

lemma holds_run:
  assumes "holds P m" and "snd (m h) = h @ evs"
  shows "P (outcome (fst (m h))) evs"
proof -
  from assms(1) obtain evs' where "snd (m h) = h @ evs'" and "P (outcome (fst (m h))) evs'"
    unfolding holds_def by (metis prod.collapse)
  with assms(2) show ?thesis by simp
qed

subsection \<open>The route of the transactions\<close>

lemma composable_viaSafe: "composable viaSafe"
  by (simp add: composable_def viaSafe_def)

lemma composable_viaSigner: "composable viaSigner"
  by (simp add: composable_def viaSigner_def)

lemma viaSafe_await: "\<forall>s t. c \<noteq> SendTransaction s t \<Longrightarrow> holds viaSafe (await env c)"
  by (cases c) (auto simp: holds_def await_def viaSafe_def)

lemma viaSafe_block:
  "truthy ms = Some safe \<Longrightarrow> holds viaSafe (bindE (executeTxn env ms t) (printInfo env))"
  by (auto simp: holds_def viaSafe_def executeTxn_def printInfo_def firstSigner_def
      run_defs Let_def
      split: sum.splits option.splits response.splits list.splits prod.splits)

lemma viaSafe_deployContract: "holds viaSafe (deployContract env v n a args)"
  by (auto simp: holds_def viaSafe_def deployContract_def printInfo_def
      run_defs Let_def
      split: sum.splits option.splits response.splits list.splits prod.splits if_splits)

lemma leaves_viaSafe: "truthy ms = Some safe \<Longrightarrow> leaves viaSafe env ms"
  by (simp add: leaves_def composable_viaSafe viaSafe_await viaSafe_block viaSafe_deployContract)

lemma viaSigner_await:
  "\<forall>a s. c \<noteq> SafeCreate a s \<Longrightarrow> \<forall>d. c \<noteq> SafeCreateTransaction d \<Longrightarrow>
   \<forall>d. c \<noteq> SafeExecuteTransaction d \<Longrightarrow> holds viaSigner (await env c)"
  by (cases c) (auto simp: holds_def await_def viaSigner_def)

lemma viaSigner_block:
  "truthy ms = None \<Longrightarrow> holds viaSigner (bindE (executeTxn env ms t) (printInfo env))"
  by (auto simp: holds_def viaSigner_def executeTxn_def printInfo_def firstSigner_def
      run_defs Let_def
      split: sum.splits option.splits response.splits list.splits prod.splits)

lemma viaSigner_deployContract: "holds viaSigner (deployContract env v n a args)"
  by (auto simp: holds_def viaSigner_def deployContract_def printInfo_def
      run_defs Let_def
      split: sum.splits option.splits response.splits list.splits prod.splits if_splits)

lemma leaves_viaSigner: "truthy ms = None \<Longrightarrow> leaves viaSigner env ms"
  by (simp add: leaves_def composable_viaSigner viaSigner_await viaSigner_block
      viaSigner_deployContract)

subsection \<open>The example runs\<close>

lemmas deploy_defs = deploy_def deployContracts_def deployContract_def updateProxy_def
  updateImplementation_def updateSupportedPlatformWallets_def updateSupportedSwaps_def
  updateSupportedLendings_def updateChildContracts_def linkChild_def updateUniSwap_def
  updateUniSwapV3_def updateKyberProxy_def updateKyberDmm_def updateCompoundLending_def
  updateAaveV1Lending_def updateAaveV2Lending_def swapValues_def lendingValues_def
  List.map_filter_def toLowerCase_def lowerChar_def gasLimit_def staleChain_def someExisting_def

lemmas trace_defs = exampleDeployed_def updateImplTxn_def updateImplSafeTxn_def
  deployedEvents_def remainingReads_def

lemma deploy_example_run:
  "deploy (exampleEnv staleChain) None emptyConfig someExisting None [] =
     (Inr exampleDeployed,
      deployedEvents ''0xd1'' @
      [Ext GetSigners (Inr (RStrs [''0xd1''])),
       Ext (SendTransaction ''0xd1'' updateImplTxn) (Inr (RTx ''0xtx'')),
       Ext (WaitConfirm ''0xtx'' 1) (Inr (RReceipt 21000))] @ remainingReads)"
  by (simp add: deploy_defs run_defs step_defs example_defs trace_defs)

lemma deploy_example_safe_run:
  "deploy (exampleEnv staleChain) (Some ''0x5afe'') emptyConfig someExisting None [] =
     (Inr exampleDeployed,
      deployedEvents ''0x5afe'' @
      [Ext GetSigners (Inr (RStrs [''0xd1''])),
       Ext (SafeCreate ''0x5afe'' (Some ''0xd1'')) (Inr RUnit),
       Ext (SafeCreateTransaction updateImplSafeTxn) (Inr RUnit),
       Ext (SafeExecuteTransaction updateImplSafeTxn) (Inr (RTx ''0xsafetx'')),
       Ext (WaitConfirm ''0xsafetx'' 1) (Inr (RReceipt 21000))] @ remainingReads)"
  by (simp add: deploy_defs run_defs step_defs example_defs trace_defs Let_def)

lemma deploy_example_failing_run:
  "deploy (failingEnv (WaitConfirm ''0xtx'' 1) staleChain) None emptyConfig someExisting None [] =
     (Inl (Error ''reverted''),
      deployedEvents ''0xd1'' @
      [Ext GetSigners (Inr (RStrs [''0xd1''])),
       Ext (SendTransaction ''0xd1'' updateImplTxn) (Inr (RTx ''0xtx'')),
       Ext (WaitConfirm ''0xtx'' 1) (Inl (Error ''reverted''))])"
  by (simp add: deploy_defs run_defs step_defs example_defs trace_defs)

lemma deployContract_unverified_run:
  "deployContract (failingEnv (Verify ''0xUniSwap'' [AStr ''0xad'']) staleChain) True ''UniSwap'' None
     [AStr ''0xad''] [] =
     (Inr (Contract ''0xUniSwap''),
      [Ext (GetContractFactory ''UniSwap'') (Inr RUnit),
       Ext (FactoryDeploy ''UniSwap'' [AStr ''0xad''])
         (Inr (RDeployed ''0xUniSwap'' ''0xcreateUniSwap'')),
       Ext (WaitDeployed ''0xUniSwap'') (Inr RUnit),
       Ext (WaitConfirm ''0xcreateUniSwap'' 1) (Inr (RReceipt 21000)),
       Ext (Sleep 10000) (Inr RUnit),
       Ext (Verify ''0xUniSwap'' [AStr ''0xad'']) (Inl (Error ''reverted'')),
       Log 2 ''failed to verify contract'' (Error ''reverted'')])"
  by (simp add: deployContract_def run_defs step_defs example_defs)

lemma updateAddressSet_example_run:
  "updateAddressSet (exampleEnv staleChain) None (Contract ''0x2222'') ''updateSupportedSwaps''
     [''0xaa''] [''0xbb''] None [] =
     (Inr (),
      [Ext GetSigners (Inr (RStrs [''0xd1''])),
       Ext (SendTransaction ''0xd1''
              \<lparr>to = Some ''0x2222'', from = None,
               data = Some (Calldata ''updateSupportedSwaps'' [AStrs [''0xaa''], ABool False]),
               value = None, txGasLimit = Some 700000\<rparr>) (Inr (RTx ''0xtx'')),
       Ext (WaitConfirm ''0xtx'' 1) (Inr (RReceipt 21000)),
       Ext GetSigners (Inr (RStrs [''0xd1''])),
       Ext (SendTransaction ''0xd1''
              \<lparr>to = Some ''0x2222'', from = None,
               data = Some (Calldata ''updateSupportedSwaps'' [AStrs [''0xbb''], ABool True]),
               value = None, txGasLimit = Some 700000\<rparr>) (Inr (RTx ''0xtx'')),
       Ext (WaitConfirm ''0xtx'' 1) (Inr (RReceipt 21000))])"
  by (simp add: run_defs step_defs example_defs gasLimit_def)

lemma executeTxn_safe_example_run:
  "executeTxn (exampleEnv staleChain) (Some ''0x5afe'') updateImplTxn [] =
     (Inr ''0xsafetx'',
      [Ext GetSigners (Inr (RStrs [''0xd1''])),
       Ext (SafeCreate ''0x5afe'' (Some ''0xd1'')) (Inr RUnit),
       Ext (SafeCreateTransaction updateImplSafeTxn) (Inr RUnit),
       Ext (SafeExecuteTransaction updateImplSafeTxn) (Inr (RTx ''0xsafetx''))])"
  by (simp add: run_defs step_defs example_defs trace_defs Let_def)

lemma executeTxn_direct_example_run:
  "executeTxn (exampleEnv staleChain) None updateImplTxn [] =
     (Inr ''0xtx'',
      [Ext GetSigners (Inr (RStrs [''0xd1''])),
       Ext (SendTransaction ''0xd1'' updateImplTxn) (Inr (RTx ''0xtx''))])"
  by (simp add: run_defs step_defs example_defs trace_defs)

subsection \<open>Letter case\<close>

lemma lowerChar_hex:
  "(x, y) \<in> set (zip ''abcdef'' ''ABCDEF'') \<Longrightarrow> lowerChar x = x \<and> lowerChar y = x"
proof -
  assume "(x, y) \<in> set (zip ''abcdef'' ''ABCDEF'')"
  then have "(x, y) \<in> {(CHR ''a'', CHR ''A''), (CHR ''b'', CHR ''B''), (CHR ''c'', CHR ''C''),
                        (CHR ''d'', CHR ''D''), (CHR ''e'', CHR ''E''), (CHR ''f'', CHR ''F'')}"
    by simp
  then show ?thesis
    by (elim insertE emptyE) (simp_all add: lowerChar_def)
qed

lemma hexCase_lowerChar:
  assumes "hexCase c d"
  shows "lowerChar c = lowerChar d"
proof -
  from assms consider "c = d" | "(c, d) \<in> set (zip ''abcdef'' ''ABCDEF'')"
    | "(d, c) \<in> set (zip ''abcdef'' ''ABCDEF'')"
    unfolding hexCase_def by blast
  then show ?thesis
  proof cases
    case 1
    then show ?thesis by simp
  next
    case 2
    from lowerChar_hex[OF this] show ?thesis by simp
  next
    case 3
    from lowerChar_hex[OF this] show ?thesis by simp
  qed
qed

lemma sameUpToCase_toLowerCase: "sameUpToCase s t \<Longrightarrow> toLowerCase s = toLowerCase t"
  unfolding sameUpToCase_def toLowerCase_def
  by (induction s t rule: list_all2_induct) (simp_all add: hexCase_lowerChar)

lemma sameUpToCase_map: "list_all2 sameUpToCase xs ys \<Longrightarrow> map toLowerCase xs = map toLowerCase ys"
  by (induction xs ys rule: list_all2_induct) (simp_all add: sameUpToCase_toLowerCase)

lemma reconciliation_same: "reconciliation c f S S = []"
  by (simp add: reconciliation_def difference_def)

lemma emitted_read: "emitted (Ext (Read a g) r # evs) = emitted evs"
  by (simp add: emitted_def)

lemma wallets_emitted:
  assumes "fst (updateSupportedPlatformWallets env multisig cfg k extraArgs h) = Inr ()"
    and "env h (Read (address (smartWalletProxy k)) ''getAllSupportedPlatformWallets'') = Inr (RStrs S)"
  shows "emitted (drop (length h) (snd (updateSupportedPlatformWallets env multisig cfg k extraArgs h)))
           = reconciliation (smartWalletProxy k) ''updateSupportedPlatformWallets''
               (map toLowerCase S) (map toLowerCase (supportedWallets cfg))"
proof -
  from updateSupportedPlatformWallets_Inr[OF run_pair[of "updateSupportedPlatformWallets env multisig cfg k extraArgs" h, OF assms(1)]]
  obtain T evs where "env h (Read (address (smartWalletProxy k)) ''getAllSupportedPlatformWallets'') = Inr (RStrs T)"
    and "snd (updateSupportedPlatformWallets env multisig cfg k extraArgs h)
           = h @ Ext (Read (address (smartWalletProxy k)) ''getAllSupportedPlatformWallets'')
                   (Inr (RStrs T)) # evs"
    and "emitted evs = reconciliation (smartWalletProxy k) ''updateSupportedPlatformWallets''
                         (map toLowerCase T) (map toLowerCase (supportedWallets cfg))"
    by blast
  with assms(2) show ?thesis by (simp add: emitted_read)
qed

lemma routers_emitted:
  assumes "fst (updateUniSwap env multisig cfg (Some uni) extraArgs h) = Inr ()"
    and "uniswap cfg = Some ucfg"
    and "env h (Read (address uni) ''getAllUniRouters'') = Inr (RStrs S)"
  shows "emitted (drop (length h) (snd (updateUniSwap env multisig cfg (Some uni) extraArgs h)))
           = reconciliation uni ''updateUniRouters''
               (map toLowerCase S) (map toLowerCase (routers ucfg))"
proof -
  from updateUniSwap_Inr[OF run_pair[of "updateUniSwap env multisig cfg (Some uni) extraArgs" h, OF assms(1)] assms(2)]
  obtain T evs where "env h (Read (address uni) ''getAllUniRouters'') = Inr (RStrs T)"
    and "snd (updateUniSwap env multisig cfg (Some uni) extraArgs h)
           = h @ Ext (Read (address uni) ''getAllUniRouters'') (Inr (RStrs T)) # evs"
    and "emitted evs = reconciliation uni ''updateUniRouters''
                         (map toLowerCase T) (map toLowerCase (routers ucfg))"
    by blast
  with assms(3) show ?thesis by (simp add: emitted_read)
qed

subsection \<open>The comptroller guard\<close>

text \<open>
  \<^verbatim>\<open>'0x' + compoundData.slice(2, 40)\<close> has at most 40 characters, so it equals no
  address of 42 characters: for a well-formed configuration the guard of
  \<^verbatim>\<open>updateCompoundLending\<close> is never taken.
\<close>

lemma comptroller_guard_never_holds:
  assumes "length (compTroller cc) = 42"
  shows "''0x'' @ slice compoundData 2 40 \<noteq> compTroller cc"
proof
  assume "''0x'' @ slice compoundData 2 40 = compTroller cc"
  then have "length (''0x'' @ slice compoundData 2 40) = length (compTroller cc)" by simp
  with assms show False by (simp add: slice_def)
qed

subsection \<open>The module's load\<close>

text \<open>A name with no entry that the prototype does not have either fails at load.\<close>

lemma missing_config_fails_at_load:
  assumes "NetworkConfig networkName = None" and "networkName \<notin> set objectPrototype"
  shows "runScript env multisig NetworkConfig networkName existingContract extraArgs h
           = (Inl (Error (''Missing deploy config for '' @ networkName)), h)"
  using assms by (simp add: runScript_def loadModule_def throwE_def)

subsection \<open>Runs that return\<close>

text \<open>
  In an environment that answers (\<^const>\<open>responsive\<close>), a transaction that carries data
  is sent and confirmed, so a step that has read the chain returns.
\<close>

lemma firstSigner_responsive:
  assumes "responsive env"
  shows "\<exists>s h'. firstSigner env h = (Inr (Some s), h')"
proof -
  from assms obtain s ss where "env h GetSigners = Inr (RStrs (s # ss))"
    unfolding responsive_def by blast
  then have "firstSigner env h = (Inr (Some s), h @ [Ext GetSigners (Inr (RStrs (s # ss)))])"
    by (simp add: firstSigner_def run_defs)
  then show ?thesis by blast
qed

lemma printInfo_responsive:
  assumes "responsive env"
  shows "\<exists>h'. printInfo env tx h = (Inr (), h')"
proof -
  from assms obtain g where "env h (WaitConfirm tx 1) = Inr (RReceipt g)"
    unfolding responsive_def by blast
  then show ?thesis by (simp add: printInfo_def run_defs)
qed

lemma executeTxn_responsive:
  assumes "responsive env" and "data t = Some d"
  shows "\<exists>tx h'. executeTxn env multisig t h = (Inr tx, h')"
proof -
  from firstSigner_responsive[OF assms(1)] obtain s h1
    where s: "firstSigner env h = (Inr (Some s), h1)" by blast
  show ?thesis
  proof (cases "truthy multisig")
    case None
    from assms(1) obtain tx where "env h1 (SendTransaction s t) = Inr (RTx tx)"
      unfolding responsive_def by blast
    with s None show ?thesis by (simp add: executeTxn_def run_defs)
  next
    case (Some safeAddress)
    define stx where "stx =
      \<lparr>safe_to = (case to t of Some a \<Rightarrow> a | None \<Rightarrow> zeroAddress),
       safe_value = (case value t of Some v \<Rightarrow> toString v | None \<Rightarrow> ''0''),
       safe_data = d, operation = Call\<rparr>"
    from assms(1) obtain r1 where 1: "env h1 (SafeCreate safeAddress (Some s)) = Inr r1"
      unfolding responsive_def by blast
    define h2 where "h2 = h1 @ [Ext (SafeCreate safeAddress (Some s)) (Inr r1)]"
    from assms(1) obtain r2 where 2: "env h2 (SafeCreateTransaction stx) = Inr r2"
      unfolding responsive_def by blast
    define h3 where "h3 = h2 @ [Ext (SafeCreateTransaction stx) (Inr r2)]"
    from assms(1) obtain tx where 3: "env h3 (SafeExecuteTransaction stx) = Inr (RTx tx)"
      unfolding responsive_def by blast
    from s Some 1 2 3 assms(2) show ?thesis
      by (simp add: executeTxn_def run_defs Let_def stx_def h2_def h3_def)
  qed
qed

lemma sent_responsive:
  assumes "responsive env"
  shows "fst (bindE (executeTxn env multisig (populateTransaction c f args g s)) (printInfo env) h)
           = Inr ()"
proof -
  have "data (populateTransaction c f args g s) = Some (Calldata f args)"
    by (simp add: populateTransaction_def)
  from executeTxn_responsive[OF assms this] obtain tx h1
    where 1: "executeTxn env multisig (populateTransaction c f args g s) h = (Inr tx, h1)" by blast
  from printInfo_responsive[OF assms] obtain h2 where 2: "printInfo env tx h1 = (Inr (), h2)"
    by blast
  from 1 2 show ?thesis by (simp add: bindE_def)
qed

lemma updateAddressSet_responsive:
  assumes "responsive env"
  shows "fst (updateAddressSet env multisig c f toBeRemoved toBeAdded extraArgs h) = Inr ()"
proof -
  have a: "\<exists>h1. (if length toBeRemoved \<noteq> 0
         then bindE (executeTxn env multisig
                (populateTransaction c f [AStrs toBeRemoved, ABool False] (Some gasLimit) extraArgs))
                (printInfo env)
         else returnE ()) h = (Inr (), h1)"
    using sent_responsive[OF assms]
    by (cases "toBeRemoved = []") (auto simp: returnE_def prod_eq_iff)
  then obtain h1 where 1: "(if length toBeRemoved \<noteq> 0
         then bindE (executeTxn env multisig
                (populateTransaction c f [AStrs toBeRemoved, ABool False] (Some gasLimit) extraArgs))
                (printInfo env)
         else returnE ()) h = (Inr (), h1)" by blast
  have "\<exists>h2. (if length toBeAdded \<noteq> 0
         then bindE (executeTxn env multisig
                (populateTransaction c f [AStrs toBeAdded, ABool True] (Some gasLimit) extraArgs))
                (printInfo env)
         else returnE ()) h1 = (Inr (), h2)"
    using sent_responsive[OF assms]
    by (cases "toBeAdded = []") (auto simp: returnE_def prod_eq_iff)
  then obtain h2 where 2: "(if length toBeAdded \<noteq> 0
         then bindE (executeTxn env multisig
                (populateTransaction c f [AStrs toBeAdded, ABool True] (Some gasLimit) extraArgs))
                (printInfo env)
         else returnE ()) h1 = (Inr (), h2)" by blast
  from 1 2 show ?thesis by (simp add: updateAddressSet_def bindE_def)
qed

lemma reconcile_responsive:
  assumes "responsive env" and "env h (Read a g) = Inr (RStrs S)"
  shows "fst (bindE (await env (Read a g)) (\<lambda>r. bindE (asStrings r) (\<lambda>onChain.
             updateAddressSet env multisig c f (R onChain) (A onChain) extraArgs)) h) = Inr ()"
  using assms(2)
    updateAddressSet_responsive[OF assms(1), of multisig c f "R S" "A S" extraArgs
      "h @ [Ext (Read a g) (Inr (RStrs S))]"]
  by (simp add: run_defs split: prod.splits sum.splits)


lemma responsive_exampleEnv: "responsive (exampleEnv chain)"
  by (simp add: responsive_def exampleEnv_def)

subsection \<open>The address sets, step by step\<close>

lemma wallets_responsive:
  assumes "responsive env" and "env h (Read (address (smartWalletProxy k)) ''getAllSupportedPlatformWallets'') = Inr (RStrs T)"
  shows "fst (updateSupportedPlatformWallets env multisig cfg k extraArgs h) = Inr ()"
  unfolding updateSupportedPlatformWallets_def Let_def
  by (rule reconcile_responsive[OF assms(1,2)])

lemma wallets_returns_reconciled:
  "fst (updateSupportedPlatformWallets env multisig cfg k extraArgs h) = Inr () \<longrightarrow>
      (\<exists>S evs.
         env h (Read (address (smartWalletProxy k)) ''getAllSupportedPlatformWallets'') = Inr (RStrs S) \<and>
         snd (updateSupportedPlatformWallets env multisig cfg k extraArgs h) = h @ Ext (Read (address (smartWalletProxy k)) ''getAllSupportedPlatformWallets'') (Inr (RStrs S)) # evs \<and>
         emitted evs = reconciliation (smartWalletProxy k) ''updateSupportedPlatformWallets'' (map toLowerCase S) (map toLowerCase (supportedWallets cfg)))"
proof (intro impI)
  assume r: "fst (updateSupportedPlatformWallets env multisig cfg k extraArgs h) = Inr ()"
  from updateSupportedPlatformWallets_Inr[OF run_pair[of "updateSupportedPlatformWallets env multisig cfg k extraArgs" h, OF r]]
  show "(\<exists>S evs.
         env h (Read (address (smartWalletProxy k)) ''getAllSupportedPlatformWallets'') = Inr (RStrs S) \<and>
         snd (updateSupportedPlatformWallets env multisig cfg k extraArgs h) = h @ Ext (Read (address (smartWalletProxy k)) ''getAllSupportedPlatformWallets'') (Inr (RStrs S)) # evs \<and>
         emitted evs = reconciliation (smartWalletProxy k) ''updateSupportedPlatformWallets'' (map toLowerCase S) (map toLowerCase (supportedWallets cfg)))" .
qed

lemma wallets_reconciles:
  "responsive env \<and> env h (Read (address (smartWalletProxy k)) ''getAllSupportedPlatformWallets'') = Inr (RStrs T) \<longrightarrow>
      fst (updateSupportedPlatformWallets env multisig cfg k extraArgs h) = Inr () \<and>
      emitted (drop (length h) (snd (updateSupportedPlatformWallets env multisig cfg k extraArgs h)))
        = reconciliation (smartWalletProxy k) ''updateSupportedPlatformWallets'' (map toLowerCase T) (map toLowerCase (supportedWallets cfg))"
proof (intro impI, elim conjE)
  assume e: "responsive env" and s: "env h (Read (address (smartWalletProxy k)) ''getAllSupportedPlatformWallets'') = Inr (RStrs T)"
  have r: "fst (updateSupportedPlatformWallets env multisig cfg k extraArgs h) = Inr ()" by (rule wallets_responsive[OF e s])
  from r wallets_emitted[OF r s]
  show "fst (updateSupportedPlatformWallets env multisig cfg k extraArgs h) = Inr () \<and>
      emitted (drop (length h) (snd (updateSupportedPlatformWallets env multisig cfg k extraArgs h)))
        = reconciliation (smartWalletProxy k) ''updateSupportedPlatformWallets'' (map toLowerCase T) (map toLowerCase (supportedWallets cfg))" by (rule conjI)
qed

lemma swaps_responsive:
  assumes "responsive env" and "env h (Read (address (smartWalletProxy k)) ''getAllSupportedSwaps'') = Inr (RStrs T)"
  shows "fst (updateSupportedSwaps env multisig k extraArgs h) = Inr ()"
  unfolding updateSupportedSwaps_def Let_def
  by (rule reconcile_responsive[OF assms(1,2)])

lemma swaps_emitted:
  assumes "fst (updateSupportedSwaps env multisig k extraArgs h) = Inr ()"
    and "env h (Read (address (smartWalletProxy k)) ''getAllSupportedSwaps'') = Inr (RStrs T)"
  shows "emitted (drop (length h) (snd (updateSupportedSwaps env multisig k extraArgs h)))
           = reconciliation (smartWalletProxy k) ''updateSupportedSwaps'' (map toLowerCase T) (map (\<lambda>c. toLowerCase (address c)) (swapValues (swaps k)))"
proof -
  from updateSupportedSwaps_Inr[OF run_pair[of "updateSupportedSwaps env multisig k extraArgs" h, OF assms(1)]]
  obtain S evs where "env h (Read (address (smartWalletProxy k)) ''getAllSupportedSwaps'') = Inr (RStrs S)"
    and "snd (updateSupportedSwaps env multisig k extraArgs h) = h @ Ext (Read (address (smartWalletProxy k)) ''getAllSupportedSwaps'') (Inr (RStrs S)) # evs"
    and "emitted evs = reconciliation (smartWalletProxy k) ''updateSupportedSwaps'' (map toLowerCase S) (map (\<lambda>c. toLowerCase (address c)) (swapValues (swaps k)))"
    by blast
  with assms(2) show ?thesis by (simp add: emitted_read)
qed

lemma swaps_returns_reconciled:
  "fst (updateSupportedSwaps env multisig k extraArgs h) = Inr () \<longrightarrow>
      (\<exists>S evs.
         env h (Read (address (smartWalletProxy k)) ''getAllSupportedSwaps'') = Inr (RStrs S) \<and>
         snd (updateSupportedSwaps env multisig k extraArgs h) = h @ Ext (Read (address (smartWalletProxy k)) ''getAllSupportedSwaps'') (Inr (RStrs S)) # evs \<and>
         emitted evs = reconciliation (smartWalletProxy k) ''updateSupportedSwaps'' (map toLowerCase S) (map (\<lambda>c. toLowerCase (address c)) (swapValues (swaps k))))"
proof (intro impI)
  assume r: "fst (updateSupportedSwaps env multisig k extraArgs h) = Inr ()"
  from updateSupportedSwaps_Inr[OF run_pair[of "updateSupportedSwaps env multisig k extraArgs" h, OF r]]
  show "(\<exists>S evs.
         env h (Read (address (smartWalletProxy k)) ''getAllSupportedSwaps'') = Inr (RStrs S) \<and>
         snd (updateSupportedSwaps env multisig k extraArgs h) = h @ Ext (Read (address (smartWalletProxy k)) ''getAllSupportedSwaps'') (Inr (RStrs S)) # evs \<and>
         emitted evs = reconciliation (smartWalletProxy k) ''updateSupportedSwaps'' (map toLowerCase S) (map (\<lambda>c. toLowerCase (address c)) (swapValues (swaps k))))" .
qed

lemma swaps_reconciles:
  "responsive env \<and> env h (Read (address (smartWalletProxy k)) ''getAllSupportedSwaps'') = Inr (RStrs T) \<longrightarrow>
      fst (updateSupportedSwaps env multisig k extraArgs h) = Inr () \<and>
      emitted (drop (length h) (snd (updateSupportedSwaps env multisig k extraArgs h)))
        = reconciliation (smartWalletProxy k) ''updateSupportedSwaps'' (map toLowerCase T) (map (\<lambda>c. toLowerCase (address c)) (swapValues (swaps k)))"
proof (intro impI, elim conjE)
  assume e: "responsive env" and s: "env h (Read (address (smartWalletProxy k)) ''getAllSupportedSwaps'') = Inr (RStrs T)"
  have r: "fst (updateSupportedSwaps env multisig k extraArgs h) = Inr ()" by (rule swaps_responsive[OF e s])
  from r swaps_emitted[OF r s]
  show "fst (updateSupportedSwaps env multisig k extraArgs h) = Inr () \<and>
      emitted (drop (length h) (snd (updateSupportedSwaps env multisig k extraArgs h)))
        = reconciliation (smartWalletProxy k) ''updateSupportedSwaps'' (map toLowerCase T) (map (\<lambda>c. toLowerCase (address c)) (swapValues (swaps k)))" by (rule conjI)
qed

lemma lendings_responsive:
  assumes "responsive env" and "env h (Read (address (smartWalletProxy k)) ''getAllSupportedLendings'') = Inr (RStrs T)"
  shows "fst (updateSupportedLendings env multisig k extraArgs h) = Inr ()"
  unfolding updateSupportedLendings_def Let_def
  by (rule reconcile_responsive[OF assms(1,2)])

lemma lendings_emitted:
  assumes "fst (updateSupportedLendings env multisig k extraArgs h) = Inr ()"
    and "env h (Read (address (smartWalletProxy k)) ''getAllSupportedLendings'') = Inr (RStrs T)"
  shows "emitted (drop (length h) (snd (updateSupportedLendings env multisig k extraArgs h)))
           = reconciliation (smartWalletProxy k) ''updateSupportedLendings'' (map toLowerCase T) (map (\<lambda>c. toLowerCase (address c)) (lendingValues (lendings k)))"
proof -
  from updateSupportedLendings_Inr[OF run_pair[of "updateSupportedLendings env multisig k extraArgs" h, OF assms(1)]]
  obtain S evs where "env h (Read (address (smartWalletProxy k)) ''getAllSupportedLendings'') = Inr (RStrs S)"
    and "snd (updateSupportedLendings env multisig k extraArgs h) = h @ Ext (Read (address (smartWalletProxy k)) ''getAllSupportedLendings'') (Inr (RStrs S)) # evs"
    and "emitted evs = reconciliation (smartWalletProxy k) ''updateSupportedLendings'' (map toLowerCase S) (map (\<lambda>c. toLowerCase (address c)) (lendingValues (lendings k)))"
    by blast
  with assms(2) show ?thesis by (simp add: emitted_read)
qed

lemma lendings_returns_reconciled:
  "fst (updateSupportedLendings env multisig k extraArgs h) = Inr () \<longrightarrow>
      (\<exists>S evs.
         env h (Read (address (smartWalletProxy k)) ''getAllSupportedLendings'') = Inr (RStrs S) \<and>
         snd (updateSupportedLendings env multisig k extraArgs h) = h @ Ext (Read (address (smartWalletProxy k)) ''getAllSupportedLendings'') (Inr (RStrs S)) # evs \<and>
         emitted evs = reconciliation (smartWalletProxy k) ''updateSupportedLendings'' (map toLowerCase S) (map (\<lambda>c. toLowerCase (address c)) (lendingValues (lendings k))))"
proof (intro impI)
  assume r: "fst (updateSupportedLendings env multisig k extraArgs h) = Inr ()"
  from updateSupportedLendings_Inr[OF run_pair[of "updateSupportedLendings env multisig k extraArgs" h, OF r]]
  show "(\<exists>S evs.
         env h (Read (address (smartWalletProxy k)) ''getAllSupportedLendings'') = Inr (RStrs S) \<and>
         snd (updateSupportedLendings env multisig k extraArgs h) = h @ Ext (Read (address (smartWalletProxy k)) ''getAllSupportedLendings'') (Inr (RStrs S)) # evs \<and>
         emitted evs = reconciliation (smartWalletProxy k) ''updateSupportedLendings'' (map toLowerCase S) (map (\<lambda>c. toLowerCase (address c)) (lendingValues (lendings k))))" .
qed

lemma lendings_reconciles:
  "responsive env \<and> env h (Read (address (smartWalletProxy k)) ''getAllSupportedLendings'') = Inr (RStrs T) \<longrightarrow>
      fst (updateSupportedLendings env multisig k extraArgs h) = Inr () \<and>
      emitted (drop (length h) (snd (updateSupportedLendings env multisig k extraArgs h)))
        = reconciliation (smartWalletProxy k) ''updateSupportedLendings'' (map toLowerCase T) (map (\<lambda>c. toLowerCase (address c)) (lendingValues (lendings k)))"
proof (intro impI, elim conjE)
  assume e: "responsive env" and s: "env h (Read (address (smartWalletProxy k)) ''getAllSupportedLendings'') = Inr (RStrs T)"
  have r: "fst (updateSupportedLendings env multisig k extraArgs h) = Inr ()" by (rule lendings_responsive[OF e s])
  from r lendings_emitted[OF r s]
  show "fst (updateSupportedLendings env multisig k extraArgs h) = Inr () \<and>
      emitted (drop (length h) (snd (updateSupportedLendings env multisig k extraArgs h)))
        = reconciliation (smartWalletProxy k) ''updateSupportedLendings'' (map toLowerCase T) (map (\<lambda>c. toLowerCase (address c)) (lendingValues (lendings k)))" by (rule conjI)
qed

lemma routers_responsive:
  assumes "responsive env" and "env h (Read (address uni) ''getAllUniRouters'') = Inr (RStrs T)"
    and "uniswap cfg = Some ucfg"
  shows "fst (updateUniSwap env multisig cfg (Some uni) extraArgs h) = Inr ()"
  unfolding updateUniSwap_def Let_def assms(3) prod.case option.case
  by (rule reconcile_responsive[OF assms(1,2)])

lemma routers_returns_reconciled:
  "uniswap cfg = Some ucfg \<and> fst (updateUniSwap env multisig cfg (Some uni) extraArgs h) = Inr () \<longrightarrow>
      (\<exists>S evs.
         env h (Read (address uni) ''getAllUniRouters'') = Inr (RStrs S) \<and>
         snd (updateUniSwap env multisig cfg (Some uni) extraArgs h) = h @ Ext (Read (address uni) ''getAllUniRouters'') (Inr (RStrs S)) # evs \<and>
         emitted evs = reconciliation uni ''updateUniRouters'' (map toLowerCase S) (map toLowerCase (routers ucfg)))"
proof (intro impI, elim conjE)
  assume p: "uniswap cfg = Some ucfg" and r: "fst (updateUniSwap env multisig cfg (Some uni) extraArgs h) = Inr ()"
  from updateUniSwap_Inr[OF run_pair[of "updateUniSwap env multisig cfg (Some uni) extraArgs" h, OF r] p]
  show "(\<exists>S evs.
         env h (Read (address uni) ''getAllUniRouters'') = Inr (RStrs S) \<and>
         snd (updateUniSwap env multisig cfg (Some uni) extraArgs h) = h @ Ext (Read (address uni) ''getAllUniRouters'') (Inr (RStrs S)) # evs \<and>
         emitted evs = reconciliation uni ''updateUniRouters'' (map toLowerCase S) (map toLowerCase (routers ucfg)))" .
qed

lemma routers_reconciles:
  "uniswap cfg = Some ucfg \<and> responsive env \<and> env h (Read (address uni) ''getAllUniRouters'') = Inr (RStrs T) \<longrightarrow>
      fst (updateUniSwap env multisig cfg (Some uni) extraArgs h) = Inr () \<and>
      emitted (drop (length h) (snd (updateUniSwap env multisig cfg (Some uni) extraArgs h)))
        = reconciliation uni ''updateUniRouters'' (map toLowerCase T) (map toLowerCase (routers ucfg))"
proof (intro impI, elim conjE)
  assume p: "uniswap cfg = Some ucfg" and e: "responsive env" and s: "env h (Read (address uni) ''getAllUniRouters'') = Inr (RStrs T)"
  have r: "fst (updateUniSwap env multisig cfg (Some uni) extraArgs h) = Inr ()" by (rule routers_responsive[OF e s p])
  from r routers_emitted[OF r p s]
  show "fst (updateUniSwap env multisig cfg (Some uni) extraArgs h) = Inr () \<and>
      emitted (drop (length h) (snd (updateUniSwap env multisig cfg (Some uni) extraArgs h)))
        = reconciliation uni ''updateUniRouters'' (map toLowerCase T) (map toLowerCase (routers ucfg))" by (rule conjI)
qed

lemma routersV_responsive:
  assumes "responsive env" and "env h (Read (address vuni) ''getAllUniRouters'') = Inr (RStrs T)"
    and "uniswapV3 cfg = Some vcfg"
  shows "fst (updateUniSwapV3 env multisig cfg (Some vuni) extraArgs h) = Inr ()"
  unfolding updateUniSwapV3_def Let_def assms(3) prod.case option.case
  by (rule reconcile_responsive[OF assms(1,2)])

lemma routersV_emitted:
  assumes "fst (updateUniSwapV3 env multisig cfg (Some vuni) extraArgs h) = Inr ()"
    and "uniswapV3 cfg = Some vcfg"
    and "env h (Read (address vuni) ''getAllUniRouters'') = Inr (RStrs T)"
  shows "emitted (drop (length h) (snd (updateUniSwapV3 env multisig cfg (Some vuni) extraArgs h)))
           = reconciliation vuni ''updateUniRouters'' (map toLowerCase T) (map toLowerCase (routers vcfg))"
proof -
  from updateUniSwapV3_Inr[OF run_pair[of "updateUniSwapV3 env multisig cfg (Some vuni) extraArgs" h, OF assms(1)] assms(2)]
  obtain S evs where "env h (Read (address vuni) ''getAllUniRouters'') = Inr (RStrs S)"
    and "snd (updateUniSwapV3 env multisig cfg (Some vuni) extraArgs h) = h @ Ext (Read (address vuni) ''getAllUniRouters'') (Inr (RStrs S)) # evs"
    and "emitted evs = reconciliation vuni ''updateUniRouters'' (map toLowerCase S) (map toLowerCase (routers vcfg))"
    by blast
  with assms(3) show ?thesis by (simp add: emitted_read)
qed

lemma routersV_returns_reconciled:
  "uniswapV3 cfg = Some vcfg \<and> fst (updateUniSwapV3 env multisig cfg (Some vuni) extraArgs h) = Inr () \<longrightarrow>
      (\<exists>S evs.
         env h (Read (address vuni) ''getAllUniRouters'') = Inr (RStrs S) \<and>
         snd (updateUniSwapV3 env multisig cfg (Some vuni) extraArgs h) = h @ Ext (Read (address vuni) ''getAllUniRouters'') (Inr (RStrs S)) # evs \<and>
         emitted evs = reconciliation vuni ''updateUniRouters'' (map toLowerCase S) (map toLowerCase (routers vcfg)))"
proof (intro impI, elim conjE)
  assume p: "uniswapV3 cfg = Some vcfg" and r: "fst (updateUniSwapV3 env multisig cfg (Some vuni) extraArgs h) = Inr ()"
  from updateUniSwapV3_Inr[OF run_pair[of "updateUniSwapV3 env multisig cfg (Some vuni) extraArgs" h, OF r] p]
  show "(\<exists>S evs.
         env h (Read (address vuni) ''getAllUniRouters'') = Inr (RStrs S) \<and>
         snd (updateUniSwapV3 env multisig cfg (Some vuni) extraArgs h) = h @ Ext (Read (address vuni) ''getAllUniRouters'') (Inr (RStrs S)) # evs \<and>
         emitted evs = reconciliation vuni ''updateUniRouters'' (map toLowerCase S) (map toLowerCase (routers vcfg)))" .
qed

lemma routersV_reconciles:
  "uniswapV3 cfg = Some vcfg \<and> responsive env \<and> env h (Read (address vuni) ''getAllUniRouters'') = Inr (RStrs T) \<longrightarrow>
      fst (updateUniSwapV3 env multisig cfg (Some vuni) extraArgs h) = Inr () \<and>
      emitted (drop (length h) (snd (updateUniSwapV3 env multisig cfg (Some vuni) extraArgs h)))
        = reconciliation vuni ''updateUniRouters'' (map toLowerCase T) (map toLowerCase (routers vcfg))"
proof (intro impI, elim conjE)
  assume p: "uniswapV3 cfg = Some vcfg" and e: "responsive env" and s: "env h (Read (address vuni) ''getAllUniRouters'') = Inr (RStrs T)"
  have r: "fst (updateUniSwapV3 env multisig cfg (Some vuni) extraArgs h) = Inr ()" by (rule routersV_responsive[OF e s p])
  from r routersV_emitted[OF r p s]
  show "fst (updateUniSwapV3 env multisig cfg (Some vuni) extraArgs h) = Inr () \<and>
      emitted (drop (length h) (snd (updateUniSwapV3 env multisig cfg (Some vuni) extraArgs h)))
        = reconciliation vuni ''updateUniRouters'' (map toLowerCase T) (map toLowerCase (routers vcfg))" by (rule conjI)
qed

lemmas reconcile_defs = reconcileChain_def reconcileConfig_def reconcileContracts_def
  reconciliation_def difference_def toLowerCase_def lowerChar_def swapValues_def
  lendingValues_def List.map_filter_def emptyConfig_def exampleEnv_def

subsection \<open>The steps that read first\<close>

























subsection \<open>What a deployment sends\<close>

lemma deployContract_routes:
  assumes "snd (deployContract env autoVerify contractName contractAddress args h) = h @ evs"
  shows "list_all (\<lambda>ev. \<not> isDirect ev \<and> \<not> isSafe ev) evs"
proof -
  from holds_run[OF viaSafe_deployContract assms] holds_run[OF viaSigner_deployContract assms]
  show ?thesis by (simp add: viaSafe_def viaSigner_def list_all_iff)
qed

section \<open>The claims\<close>

text \<open>
  Claim C8. \<^verbatim>\<open>convertToAddressObject\<close> is to map every contract in a nested record or
  array to its address: an array of contracts to the array of their addresses, in order.
  The code does not: for the array that holds the one contract at address
  \<^verbatim>\<open>0xabc\<close> it returns an array that holds \<^verbatim>\<open>undefined\<close>, because the callback
  of \<^verbatim>\<open>map\<close> receives the element and uses it as an index.
\<close>

theorem convertToAddressObject_array_of_contract:
  "convertToAddressObject (ArrayObj [ContractObj (Contract ''0xabc'')]) = AArray [AUndefined]"
  by (simp add: arrayGet_object)

text \<open>
  Claim C5. \<^verbatim>\<open>updateCompoundLending\<close> is to send \<^verbatim>\<open>updateCompoundData\<close> only when
  the comptroller stored on the chain differs from the configured one. The code sends
  it although they are the same address: on the chain of \<open>compoundChain\<close> the first
  20 bytes of \<^verbatim>\<open>compoundData\<close> are the configured comptroller, and the run still emits
  the transaction, because \<^verbatim>\<open>slice(2, 40)\<close> keeps 38 of the 40 hexadecimal digits.
\<close>

theorem updateCompoundLending_same_comptroller_emits:
  "emitted (snd (updateCompoundLending (exampleEnv compoundChain) None
       (emptyConfig\<lparr>compound := Some compoundExample\<rparr>) (Some (Contract ''0xc1'')) None []))
   = [(Some ''0xc1'', Some (Calldata ''updateCompoundData''
         [AStr ''0x3d9819210a31b4961b30ef54be2aed79b9c9cd3b'',
          AStr ''0x4ddc2d193948926d02f9b1fe9e1daa0718270ed5'', AStrs []]))]"
  by (simp add: updateCompoundLending_def run_defs step_defs example_defs compoundChain_def
      compoundExample_def slice_def emitted_def)

text \<open>
  Claim C9. A network name with no entry in the \<^verbatim>\<open>NetworkConfig\<close> table is to fail at
  load with \<^verbatim>\<open>Missing deploy config for <network name>\<close>, before anything is deployed.
  The code does not for the name \<^verbatim>\<open>constructor\<close>: the table is empty, yet the lookup
  finds the member inherited from \<^verbatim>\<open>Object.prototype\<close>, the module loads, and the run
  deploys four contracts and sends a transaction before it stops with a TypeError.
\<close>

theorem inherited_name_loads_and_deploys:
  "loadModule Map.empty ''constructor'' = Inr Inherited \<and>
   fst (runScript (exampleEnv staleChain) None Map.empty ''constructor'' (\<lambda>path. None) None [])
     = Inl (TypeError ''networkConfig.supportedWallets is undefined'') \<and>
   map (\<lambda>ev. case ev of Ext (FactoryDeploy n args) r \<Rightarrow> n | _ \<Rightarrow> [])
     (filter isDeployment
        (snd (runScript (exampleEnv staleChain) None Map.empty ''constructor'' (\<lambda>path. None) None [])))
     = [''SmartWalletImplementation'', ''FetchTokenBalances'', ''FetchAaveDataWrapper'',
        ''SmartWalletProxy''] \<and>
   emitted (snd (runScript (exampleEnv staleChain) None Map.empty ''constructor'' (\<lambda>path. None) None []))
     = [(Some ''0xSmartWalletProxy'',
         Some (Calldata ''updateNewImplementation'' [AStr ''0xSmartWalletImplementation'']))]"
  by (simp add: runScript_def loadModule_def objectPrototype_def deployInherited_def
      deployContract_def updateImplementation_def staleChain_def gasLimit_def
      run_defs step_defs example_defs emitted_def Let_def)

text \<open>
  Claim C1. The five address sets (the proxy's platform wallets, swaps and lendings, the
  routers of UniSwap and of UniSwapV3) are reconciled. Each step begins by reading the
  on-chain set. Whenever the environment answers and that read gives the set \<open>T\<close>, the
  step returns and the transactions it has sent are exactly
  \<^const>\<open>reconciliation\<close> of the lowercased \<open>T\<close> and the lowercased configured set: one
  removal carrying the on-chain entries that are not configured, if there are any, then
  one addition carrying the configured entries that are not on chain, if there are any,
  and nothing else. Conversely every run that returns, in any environment, has read the
  set first and has sent exactly those transactions. \<^const>\<open>difference\<close> is the set
  difference.
\<close>

theorem address_set_reconciliation:
  "(fst (updateSupportedPlatformWallets env multisig cfg k extraArgs h) = Inr () \<longrightarrow>
      (\<exists>S evs.
         env h (Read (address (smartWalletProxy k)) ''getAllSupportedPlatformWallets'') = Inr (RStrs S) \<and>
         snd (updateSupportedPlatformWallets env multisig cfg k extraArgs h) = h @ Ext (Read (address (smartWalletProxy k)) ''getAllSupportedPlatformWallets'') (Inr (RStrs S)) # evs \<and>
         emitted evs = reconciliation (smartWalletProxy k) ''updateSupportedPlatformWallets'' (map toLowerCase S) (map toLowerCase (supportedWallets cfg)))) \<and>
   (responsive env \<and> env h (Read (address (smartWalletProxy k)) ''getAllSupportedPlatformWallets'') = Inr (RStrs T) \<longrightarrow>
      fst (updateSupportedPlatformWallets env multisig cfg k extraArgs h) = Inr () \<and>
      emitted (drop (length h) (snd (updateSupportedPlatformWallets env multisig cfg k extraArgs h)))
        = reconciliation (smartWalletProxy k) ''updateSupportedPlatformWallets'' (map toLowerCase T) (map toLowerCase (supportedWallets cfg))) \<and>
   (fst (updateSupportedSwaps env multisig k extraArgs h) = Inr () \<longrightarrow>
      (\<exists>S evs.
         env h (Read (address (smartWalletProxy k)) ''getAllSupportedSwaps'') = Inr (RStrs S) \<and>
         snd (updateSupportedSwaps env multisig k extraArgs h) = h @ Ext (Read (address (smartWalletProxy k)) ''getAllSupportedSwaps'') (Inr (RStrs S)) # evs \<and>
         emitted evs = reconciliation (smartWalletProxy k) ''updateSupportedSwaps'' (map toLowerCase S) (map (\<lambda>c. toLowerCase (address c)) (swapValues (swaps k))))) \<and>
   (responsive env \<and> env h (Read (address (smartWalletProxy k)) ''getAllSupportedSwaps'') = Inr (RStrs T) \<longrightarrow>
      fst (updateSupportedSwaps env multisig k extraArgs h) = Inr () \<and>
      emitted (drop (length h) (snd (updateSupportedSwaps env multisig k extraArgs h)))
        = reconciliation (smartWalletProxy k) ''updateSupportedSwaps'' (map toLowerCase T) (map (\<lambda>c. toLowerCase (address c)) (swapValues (swaps k)))) \<and>
   (fst (updateSupportedLendings env multisig k extraArgs h) = Inr () \<longrightarrow>
      (\<exists>S evs.
         env h (Read (address (smartWalletProxy k)) ''getAllSupportedLendings'') = Inr (RStrs S) \<and>
         snd (updateSupportedLendings env multisig k extraArgs h) = h @ Ext (Read (address (smartWalletProxy k)) ''getAllSupportedLendings'') (Inr (RStrs S)) # evs \<and>
         emitted evs = reconciliation (smartWalletProxy k) ''updateSupportedLendings'' (map toLowerCase S) (map (\<lambda>c. toLowerCase (address c)) (lendingValues (lendings k))))) \<and>
   (responsive env \<and> env h (Read (address (smartWalletProxy k)) ''getAllSupportedLendings'') = Inr (RStrs T) \<longrightarrow>
      fst (updateSupportedLendings env multisig k extraArgs h) = Inr () \<and>
      emitted (drop (length h) (snd (updateSupportedLendings env multisig k extraArgs h)))
        = reconciliation (smartWalletProxy k) ''updateSupportedLendings'' (map toLowerCase T) (map (\<lambda>c. toLowerCase (address c)) (lendingValues (lendings k)))) \<and>
   (uniswap cfg = Some ucfg \<and> fst (updateUniSwap env multisig cfg (Some uni) extraArgs h) = Inr () \<longrightarrow>
      (\<exists>S evs.
         env h (Read (address uni) ''getAllUniRouters'') = Inr (RStrs S) \<and>
         snd (updateUniSwap env multisig cfg (Some uni) extraArgs h) = h @ Ext (Read (address uni) ''getAllUniRouters'') (Inr (RStrs S)) # evs \<and>
         emitted evs = reconciliation uni ''updateUniRouters'' (map toLowerCase S) (map toLowerCase (routers ucfg)))) \<and>
   (uniswap cfg = Some ucfg \<and> responsive env \<and> env h (Read (address uni) ''getAllUniRouters'') = Inr (RStrs T) \<longrightarrow>
      fst (updateUniSwap env multisig cfg (Some uni) extraArgs h) = Inr () \<and>
      emitted (drop (length h) (snd (updateUniSwap env multisig cfg (Some uni) extraArgs h)))
        = reconciliation uni ''updateUniRouters'' (map toLowerCase T) (map toLowerCase (routers ucfg))) \<and>
   (uniswapV3 cfg = Some vcfg \<and> fst (updateUniSwapV3 env multisig cfg (Some vuni) extraArgs h) = Inr () \<longrightarrow>
      (\<exists>S evs.
         env h (Read (address vuni) ''getAllUniRouters'') = Inr (RStrs S) \<and>
         snd (updateUniSwapV3 env multisig cfg (Some vuni) extraArgs h) = h @ Ext (Read (address vuni) ''getAllUniRouters'') (Inr (RStrs S)) # evs \<and>
         emitted evs = reconciliation vuni ''updateUniRouters'' (map toLowerCase S) (map toLowerCase (routers vcfg)))) \<and>
   (uniswapV3 cfg = Some vcfg \<and> responsive env \<and> env h (Read (address vuni) ''getAllUniRouters'') = Inr (RStrs T) \<longrightarrow>
      fst (updateUniSwapV3 env multisig cfg (Some vuni) extraArgs h) = Inr () \<and>
      emitted (drop (length h) (snd (updateUniSwapV3 env multisig cfg (Some vuni) extraArgs h)))
        = reconciliation vuni ''updateUniRouters'' (map toLowerCase T) (map toLowerCase (routers vcfg))) \<and>
   set (difference A B) = set A - set B"
  by (intro conjI wallets_returns_reconciled wallets_reconciles swaps_returns_reconciled swaps_reconciles lendings_returns_reconciled lendings_reconciles routers_returns_reconciled routers_reconciles routersV_returns_reconciled routersV_reconciles set_difference)

theorem address_set_reconciliation_witness:
  "(fst (updateSupportedPlatformWallets (exampleEnv reconcileChain) None reconcileConfig
           reconcileContracts None []) = Inr () \<and>
    emitted (snd (updateSupportedPlatformWallets (exampleEnv reconcileChain) None reconcileConfig
                    reconcileContracts None []))
      = [(Some ''0x2222'', Some (Calldata ''updateSupportedPlatformWallets'' [AStrs [''0xaa01''], ABool False])),
         (Some ''0x2222'', Some (Calldata ''updateSupportedPlatformWallets'' [AStrs [''0xcc03''], ABool True]))]) \<and>
   (fst (updateSupportedSwaps (exampleEnv reconcileChain) None reconcileContracts None []) = Inr () \<and>
    emitted (snd (updateSupportedSwaps (exampleEnv reconcileChain) None reconcileContracts None []))
      = [(Some ''0x2222'', Some (Calldata ''updateSupportedSwaps'' [AStrs [''0xdd04''], ABool False])),
         (Some ''0x2222'', Some (Calldata ''updateSupportedSwaps'' [AStrs [''0xa5'', ''0xb6''], ABool True]))]) \<and>
   (fst (updateSupportedLendings (exampleEnv reconcileChain) None reconcileContracts None []) = Inr () \<and>
    emitted (snd (updateSupportedLendings (exampleEnv reconcileChain) None reconcileContracts None []))
      = [(Some ''0x2222'', Some (Calldata ''updateSupportedLendings'' [AStrs [''0xee05''], ABool False])),
         (Some ''0x2222'', Some (Calldata ''updateSupportedLendings'' [AStrs [''0xc7''], ABool True]))]) \<and>
   (fst (updateUniSwap (exampleEnv reconcileChain) None reconcileConfig (Some (Contract ''0xA5'')) None [])
      = Inr () \<and>
    emitted (snd (updateUniSwap (exampleEnv reconcileChain) None reconcileConfig
                    (Some (Contract ''0xA5'')) None []))
      = [(Some ''0xA5'', Some (Calldata ''updateUniRouters'' [AStrs [''0xe1''], ABool False])),
         (Some ''0xA5'', Some (Calldata ''updateUniRouters'' [AStrs [''0xf2''], ABool True]))]) \<and>
   (fst (updateUniSwapV3 (exampleEnv reconcileChain) None reconcileConfig (Some (Contract ''0xb6'')) None [])
      = Inr () \<and>
    emitted (snd (updateUniSwapV3 (exampleEnv reconcileChain) None reconcileConfig
                    (Some (Contract ''0xb6'')) None []))
      = [(Some ''0xb6'', Some (Calldata ''updateUniRouters'' [AStrs [''0xe1''], ABool False])),
         (Some ''0xb6'', Some (Calldata ''updateUniRouters'' [AStrs [''0xf3''], ABool True]))])"
proof -
  note t = address_set_reconciliation
             [where env = "exampleEnv reconcileChain" and multisig = None and cfg = reconcileConfig
                and k = reconcileContracts and extraArgs = None and h = "[]"
                and uni = "Contract ''0xA5''" and ucfg = "\<lparr>routers = [''0xF2'']\<rparr>"
                and vuni = "Contract ''0xb6''" and vcfg = "\<lparr>routers = [''0xF3'']\<rparr>"]
  have e: "responsive (exampleEnv reconcileChain)" by (rule responsive_exampleEnv)
  have w: "responsive (exampleEnv reconcileChain) \<and>
      exampleEnv reconcileChain [] (Read (address (smartWalletProxy reconcileContracts))
         ''getAllSupportedPlatformWallets'') = Inr (RStrs [''0xAA01'', ''0xbb02''])"
    using e by (simp add: reconcile_defs)
  have s: "responsive (exampleEnv reconcileChain) \<and>
      exampleEnv reconcileChain [] (Read (address (smartWalletProxy reconcileContracts))
         ''getAllSupportedSwaps'') = Inr (RStrs [''0xDD04''])"
    using e by (simp add: reconcile_defs)
  have l: "responsive (exampleEnv reconcileChain) \<and>
      exampleEnv reconcileChain [] (Read (address (smartWalletProxy reconcileContracts))
         ''getAllSupportedLendings'') = Inr (RStrs [''0xEE05''])"
    using e by (simp add: reconcile_defs)
  have u: "uniswap reconcileConfig = Some \<lparr>routers = [''0xF2'']\<rparr> \<and>
      responsive (exampleEnv reconcileChain) \<and>
      exampleEnv reconcileChain [] (Read (address (Contract ''0xA5'')) ''getAllUniRouters'')
        = Inr (RStrs [''0xE1''])"
    using e by (simp add: reconcile_defs)
  have v: "uniswapV3 reconcileConfig = Some \<lparr>routers = [''0xF3'']\<rparr> \<and>
      responsive (exampleEnv reconcileChain) \<and>
      exampleEnv reconcileChain [] (Read (address (Contract ''0xb6'')) ''getAllUniRouters'')
        = Inr (RStrs [''0xE1''])"
    using e by (simp add: reconcile_defs)
  note c = t[THEN conjunct2]
  note c3 = c[THEN conjunct2, THEN conjunct2]
  note c5 = c3[THEN conjunct2, THEN conjunct2]
  note c7 = c5[THEN conjunct2, THEN conjunct2]
  note c9 = c7[THEN conjunct2, THEN conjunct2]
  from c[THEN conjunct1, rule_format, OF w] c3[THEN conjunct1, rule_format, OF s]
    c5[THEN conjunct1, rule_format, OF l] c7[THEN conjunct1, rule_format, OF u]
    c9[THEN conjunct1, rule_format, OF v]
  show ?thesis by (simp add: reconcile_defs)
qed






text \<open>
  Claim C4. When the sleep or the verification in \<^verbatim>\<open>deployContract\<close> fails, the error is
  caught: the failed call is followed by the log line and nothing else (no second
  attempt), every call before it succeeded, and \<^verbatim>\<open>deployContract\<close> returns the contract
  it deployed. Any other external call that fails during \<^verbatim>\<open>deploy\<close> (a factory lookup,
  a deployment, a read of the chain, a submission, a confirmation) is the last event of
  the run, and its error is the result of \<^verbatim>\<open>deploy\<close>.
\<close>

theorem verification_caught_other_errors_fatal:
  "(snd (deployContract env autoVerify contractName contractAddress args h) = h @ evs \<and>
    ev \<in> set evs \<and> isVerification ev \<and> failure ev = Some e \<longrightarrow>
      (\<exists>addr tx pre.
         fst (deployContract env autoVerify contractName contractAddress args h)
           = Inr (Contract addr) \<and>
         evs = pre @ [ev, Log 2 ''failed to verify contract'' e] \<and>
         list_all (\<lambda>x. failure x = None) pre \<and>
         Ext (FactoryDeploy contractName args) (Inr (RDeployed addr tx)) \<in> set pre)) \<and>
   (snd (deploy env multisig cfg existingContract extraArgs g) = g @ dvs \<and>
    i < length dvs \<and> failure (dvs ! i) = Some d \<and> \<not> isVerification (dvs ! i) \<longrightarrow>
      fst (deploy env multisig cfg existingContract extraArgs g) = Inl d \<and> Suc i = length dvs)"
  (is "(?H1 \<longrightarrow> ?C1) \<and> (?H2 \<longrightarrow> ?C2)")
proof (intro conjI impI)
  assume a: ?H1
  then have "deployContract env autoVerify contractName contractAddress args h =
      (fst (deployContract env autoVerify contractName contractAddress args h), h @ evs)"
    by (simp add: prod_eq_iff)
  from deployContract_verification[OF this] a show ?C1 by blast
next
  assume a: ?H2
  then have "propagated (outcome (fst (deploy env multisig cfg existingContract extraArgs g))) dvs"
    by (intro deploy_propagated) simp
  from propagated_nth[OF this, of i d] a
  have "outcome (fst (deploy env multisig cfg existingContract extraArgs g)) = Some d"
    and "Suc i = length dvs" by simp_all
  then show "fst (deploy env multisig cfg existingContract extraArgs g) = Inl d"
    and "Suc i = length dvs"
    by (auto simp: outcome_def split: sum.splits)
qed

theorem verification_caught_other_errors_fatal_witness:
  "(\<exists>addr tx pre.
      fst (deployContract (failingEnv (Verify ''0xUniSwap'' [AStr ''0xad'']) staleChain) True
             ''UniSwap'' None [AStr ''0xad''] []) = Inr (Contract addr) \<and>
      snd (deployContract (failingEnv (Verify ''0xUniSwap'' [AStr ''0xad'']) staleChain) True
             ''UniSwap'' None [AStr ''0xad''] [])
        = pre @ [Ext (Verify ''0xUniSwap'' [AStr ''0xad'']) (Inl (Error ''reverted'')),
                 Log 2 ''failed to verify contract'' (Error ''reverted'')] \<and>
      list_all (\<lambda>x. failure x = None) pre \<and>
      Ext (FactoryDeploy ''UniSwap'' [AStr ''0xad'']) (Inr (RDeployed addr tx)) \<in> set pre) \<and>
   fst (deploy (failingEnv (WaitConfirm ''0xtx'' 1) staleChain) None emptyConfig someExisting None [])
     = Inl (Error ''reverted'') \<and>
   Suc 12 = length (snd (deploy (failingEnv (WaitConfirm ''0xtx'' 1) staleChain) None emptyConfig
                           someExisting None []))"
proof -
  have a: "snd (deployContract (failingEnv (Verify ''0xUniSwap'' [AStr ''0xad'']) staleChain) True
                  ''UniSwap'' None [AStr ''0xad''] [])
             = [] @ snd (deployContract (failingEnv (Verify ''0xUniSwap'' [AStr ''0xad'']) staleChain)
                           True ''UniSwap'' None [AStr ''0xad''] []) \<and>
           Ext (Verify ''0xUniSwap'' [AStr ''0xad'']) (Inl (Error ''reverted''))
             \<in> set (snd (deployContract (failingEnv (Verify ''0xUniSwap'' [AStr ''0xad'']) staleChain)
                             True ''UniSwap'' None [AStr ''0xad''] [])) \<and>
           isVerification (Ext (Verify ''0xUniSwap'' [AStr ''0xad'']) (Inl (Error ''reverted''))) \<and>
           failure (Ext (Verify ''0xUniSwap'' [AStr ''0xad'']) (Inl (Error ''reverted'')))
             = Some (Error ''reverted'')"
    unfolding deployContract_unverified_run by simp
  have b: "snd (deploy (failingEnv (WaitConfirm ''0xtx'' 1) staleChain) None emptyConfig someExisting
                  None [])
             = [] @ snd (deploy (failingEnv (WaitConfirm ''0xtx'' 1) staleChain) None emptyConfig
                           someExisting None []) \<and>
           12 < length (snd (deploy (failingEnv (WaitConfirm ''0xtx'' 1) staleChain) None emptyConfig
                               someExisting None [])) \<and>
           failure (snd (deploy (failingEnv (WaitConfirm ''0xtx'' 1) staleChain) None emptyConfig
                           someExisting None []) ! 12) = Some (Error ''reverted'') \<and>
           \<not> isVerification (snd (deploy (failingEnv (WaitConfirm ''0xtx'' 1) staleChain) None
                                     emptyConfig someExisting None []) ! 12)"
    unfolding deploy_example_failing_run by (simp add: deployedEvents_def)
  from verification_caught_other_errors_fatal[THEN conjunct1, rule_format, OF a]
    verification_caught_other_errors_fatal[THEN conjunct2, rule_format, OF b]
  show ?thesis by (intro conjI) simp_all
qed

text \<open>
  Claim C6. Execution is sequential. In \<^verbatim>\<open>updateAddressSet\<close> no transaction is submitted
  while another awaits its one confirmation, and a run that returns has sent the removal
  before the addition and left nothing pending; so the removal is confirmed before the
  addition is submitted. The same holds of the whole of \<^verbatim>\<open>deploy\<close>: every deployment
  and every update is confirmed before the next transaction is submitted.
\<close>

theorem strictly_sequential:
  "(snd (updateAddressSet env multisig c f toBeRemoved toBeAdded extraArgs h) = h @ evs \<longrightarrow>
      sequential (outcome (fst (updateAddressSet env multisig c f toBeRemoved toBeAdded extraArgs h))) evs \<and>
      (fst (updateAddressSet env multisig c f toBeRemoved toBeAdded extraArgs h) = Inr () \<longrightarrow>
         emitted evs =
           (if toBeRemoved = [] then []
            else [(Some (address c), Some (Calldata f [AStrs toBeRemoved, ABool False]))]) @
           (if toBeAdded = [] then []
            else [(Some (address c), Some (Calldata f [AStrs toBeAdded, ABool True]))]))) \<and>
   (snd (deploy env multisig cfg existingContract extraArgs g) = g @ dvs \<longrightarrow>
      sequential (outcome (fst (deploy env multisig cfg existingContract extraArgs g))) dvs)"
  (is "(?H1 \<longrightarrow> ?C1 \<and> (?H1' \<longrightarrow> ?C1')) \<and> (?H2 \<longrightarrow> ?C2)")
proof (intro conjI impI)
  assume ?H1
  then show ?C1
    by (rule holds_run[OF holds_updateAddressSet[OF leaves_sequential]])
next
  assume a: ?H1 and b: ?H1'
  from a b have "updateAddressSet env multisig c f toBeRemoved toBeAdded extraArgs h = (Inr (), h @ evs)"
    by (simp add: prod_eq_iff)
  from updateAddressSet_Inr[OF this] show ?C1' by simp
next
  assume ?H2
  then show ?C2
    by (rule holds_run[OF holds_deploy[OF leaves_sequential]])
qed

theorem strictly_sequential_witness:
  "fst (updateAddressSet (exampleEnv staleChain) None (Contract ''0x2222'') ''updateSupportedSwaps''
          [''0xaa''] [''0xbb''] None []) = Inr () \<and>
   seqRun None (snd (updateAddressSet (exampleEnv staleChain) None (Contract ''0x2222'')
                       ''updateSupportedSwaps'' [''0xaa''] [''0xbb''] None [])) = Some None \<and>
   emitted (snd (updateAddressSet (exampleEnv staleChain) None (Contract ''0x2222'')
                   ''updateSupportedSwaps'' [''0xaa''] [''0xbb''] None []))
     = [(Some ''0x2222'', Some (Calldata ''updateSupportedSwaps'' [AStrs [''0xaa''], ABool False])),
        (Some ''0x2222'', Some (Calldata ''updateSupportedSwaps'' [AStrs [''0xbb''], ABool True]))] \<and>
   fst (deploy (exampleEnv staleChain) None emptyConfig someExisting None []) = Inr exampleDeployed \<and>
   seqRun None (snd (deploy (exampleEnv staleChain) None emptyConfig someExisting None [])) = Some None"
  using strictly_sequential
          [where env = "exampleEnv staleChain" and multisig = None and c = "Contract ''0x2222''"
             and f = "''updateSupportedSwaps''" and toBeRemoved = "[''0xaa'']"
             and toBeAdded = "[''0xbb'']" and extraArgs = None and h = "[]"
             and evs = "snd (updateAddressSet (exampleEnv staleChain) None (Contract ''0x2222'')
                              ''updateSupportedSwaps'' [''0xaa''] [''0xbb''] None [])"
             and cfg = emptyConfig and existingContract = someExisting and g = "[]"
             and dvs = "snd (deploy (exampleEnv staleChain) None emptyConfig someExisting None [])"]
  unfolding updateAddressSet_example_run deploy_example_run
  by (simp add: sequential_def outcome_def seqStep_def emitted_def trace_defs)

text \<open>
  Claim C7, as the code has it. A transaction handed to \<^verbatim>\<open>executeTxn\<close> is routed by
  the multisig setting. With a multisig address configured (a non-empty string),
  \<^verbatim>\<open>executeTxn\<close> creates the Safe for that address with the first signer and executes
  through it a Call operation that carries the transaction's \<^verbatim>\<open>to\<close> (the zero address
  when it has none), its \<^verbatim>\<open>value\<close> in decimal (0 when it has none) and its
  \<^verbatim>\<open>data\<close>; with none configured, the first signer sends the transaction as it is.
  In an environment that answers, \<^verbatim>\<open>executeTxn\<close> returns for every transaction that
  carries data. Over a whole run of \<^verbatim>\<open>deploy\<close>: with a multisig no signer sends a
  transaction, and without one nothing goes through the Safe. The transactions that
  create contracts are not handed to \<^verbatim>\<open>executeTxn\<close>: \<^verbatim>\<open>deployContract\<close> sends
  nothing through the Safe and nothing through \<^verbatim>\<open>sendTransaction\<close>, whatever the
  multisig setting; the factory sends them.
\<close>

theorem executeTxn_routes:
  "(truthy multisig = Some safeAddress \<and> executeTxn env multisig t h = (Inr tx, h') \<longrightarrow>
      (\<exists>ss r1 r2 d. data t = Some d \<and>
         h' = h @ [Ext GetSigners (Inr (RStrs ss)),
                   Ext (SafeCreate safeAddress (case ss of [] \<Rightarrow> None | s # _ \<Rightarrow> Some s)) (Inr r1),
                   Ext (SafeCreateTransaction
                          \<lparr>safe_to = (case to t of Some a \<Rightarrow> a | None \<Rightarrow> zeroAddress),
                           safe_value = (case value t of Some v \<Rightarrow> toString v | None \<Rightarrow> ''0''),
                           safe_data = d, operation = Call\<rparr>) (Inr r2),
                   Ext (SafeExecuteTransaction
                          \<lparr>safe_to = (case to t of Some a \<Rightarrow> a | None \<Rightarrow> zeroAddress),
                           safe_value = (case value t of Some v \<Rightarrow> toString v | None \<Rightarrow> ''0''),
                           safe_data = d, operation = Call\<rparr>) (Inr (RTx tx))])) \<and>
   (truthy multisig = None \<and> executeTxn env multisig t h = (Inr tx, h') \<longrightarrow>
      (\<exists>s ss. h' = h @ [Ext GetSigners (Inr (RStrs (s # ss))),
                         Ext (SendTransaction s t) (Inr (RTx tx))])) \<and>
   (responsive env \<and> data t = Some payload \<longrightarrow>
      (\<exists>sent. fst (executeTxn env multisig t h) = Inr sent)) \<and>
   (truthy multisig = Some safeAddress \<and>
    snd (deploy env multisig cfg existingContract extraArgs g) = g @ evs \<longrightarrow>
      list_all (\<lambda>ev. \<not> isDirect ev) evs) \<and>
   (truthy multisig = None \<and>
    snd (deploy env multisig cfg existingContract extraArgs g) = g @ evs \<longrightarrow>
      list_all (\<lambda>ev. \<not> isSafe ev) evs) \<and>
   (snd (deployContract env autoVerify contractName contractAddress args g) = g @ dvs \<longrightarrow>
      list_all (\<lambda>ev. \<not> isDirect ev \<and> \<not> isSafe ev) dvs)"
  (is "(?H1 \<longrightarrow> ?C1) \<and> (?H2 \<longrightarrow> ?C2) \<and> (?H3 \<longrightarrow> ?C3) \<and> (?H4 \<longrightarrow> ?C4) \<and> (?H5 \<longrightarrow> ?C5) \<and> (?H6 \<longrightarrow> ?C6)")
proof (intro conjI impI)
  assume a: ?H1
  then have m: "truthy multisig = Some safeAddress"
    and r: "executeTxn env multisig t h = (Inr tx, h')" by simp_all
  from executeTxn_safe_Inr[OF m r] show ?C1 .
next
  assume a: ?H2
  then have m: "truthy multisig = None"
    and r: "executeTxn env multisig t h = (Inr tx, h')" by simp_all
  from executeTxn_direct_Inr[OF m r] show ?C2 .
next
  assume a: ?H3
  then have e: "responsive env" and d: "data t = Some payload" by simp_all
  from executeTxn_responsive[OF e d, of multisig h] show ?C3 by auto
next
  assume a: ?H4
  then have m: "truthy multisig = Some safeAddress"
    and r: "snd (deploy env multisig cfg existingContract extraArgs g) = g @ evs" by simp_all
  from holds_run[OF holds_deploy[OF leaves_viaSafe[OF m]] r] show ?C4 by (simp add: viaSafe_def)
next
  assume a: ?H5
  then have m: "truthy multisig = None"
    and r: "snd (deploy env multisig cfg existingContract extraArgs g) = g @ evs" by simp_all
  from holds_run[OF holds_deploy[OF leaves_viaSigner[OF m]] r] show ?C5 by (simp add: viaSigner_def)
next
  assume ?H6
  then show ?C6 by (rule deployContract_routes)
qed

theorem executeTxn_routes_witness:
  "executeTxn (exampleEnv staleChain) (Some ''0x5afe'') updateImplTxn [] =
     (Inr ''0xsafetx'',
      [Ext GetSigners (Inr (RStrs [''0xd1''])),
       Ext (SafeCreate ''0x5afe'' (Some ''0xd1'')) (Inr RUnit),
       Ext (SafeCreateTransaction updateImplSafeTxn) (Inr RUnit),
       Ext (SafeExecuteTransaction updateImplSafeTxn) (Inr (RTx ''0xsafetx''))]) \<and>
   executeTxn (exampleEnv staleChain) None updateImplTxn [] =
     (Inr ''0xtx'',
      [Ext GetSigners (Inr (RStrs [''0xd1''])),
       Ext (SendTransaction ''0xd1'' updateImplTxn) (Inr (RTx ''0xtx''))]) \<and>
   (\<exists>ss r1 r2 d. data updateImplTxn = Some d \<and>
      snd (executeTxn (exampleEnv staleChain) (Some ''0x5afe'') updateImplTxn [])
      = [] @ [Ext GetSigners (Inr (RStrs ss)),
              Ext (SafeCreate ''0x5afe'' (case ss of [] \<Rightarrow> None | s # _ \<Rightarrow> Some s)) (Inr r1),
              Ext (SafeCreateTransaction
                     \<lparr>safe_to = (case to updateImplTxn of Some a \<Rightarrow> a | None \<Rightarrow> zeroAddress),
                      safe_value = (case value updateImplTxn of Some v \<Rightarrow> toString v | None \<Rightarrow> ''0''),
                      safe_data = d, operation = Call\<rparr>) (Inr r2),
              Ext (SafeExecuteTransaction
                     \<lparr>safe_to = (case to updateImplTxn of Some a \<Rightarrow> a | None \<Rightarrow> zeroAddress),
                      safe_value = (case value updateImplTxn of Some v \<Rightarrow> toString v | None \<Rightarrow> ''0''),
                      safe_data = d, operation = Call\<rparr>) (Inr (RTx ''0xsafetx''))]) \<and>
   (\<exists>s ss. snd (executeTxn (exampleEnv staleChain) None updateImplTxn [])
      = [] @ [Ext GetSigners (Inr (RStrs (s # ss))),
              Ext (SendTransaction s updateImplTxn) (Inr (RTx ''0xtx''))]) \<and>
   (\<exists>sent. fst (executeTxn (exampleEnv staleChain) (Some ''0x5afe'') updateImplTxn []) = Inr sent) \<and>
   (\<exists>sent. fst (executeTxn (exampleEnv staleChain) None updateImplTxn []) = Inr sent) \<and>
   list_all (\<lambda>ev. \<not> isDirect ev)
     (snd (deploy (exampleEnv staleChain) (Some ''0x5afe'') emptyConfig someExisting None [])) \<and>
   list_all (\<lambda>ev. \<not> isSafe ev)
     (snd (deploy (exampleEnv staleChain) None emptyConfig someExisting None [])) \<and>
   list_all (\<lambda>ev. \<not> isDirect ev \<and> \<not> isSafe ev)
     (snd (deployContract (exampleEnv staleChain) True ''UniSwap'' None [AStr ''0xad''] []))"
proof -
  have a: "truthy (Some ''0x5afe'') = Some ''0x5afe'' \<and>
           executeTxn (exampleEnv staleChain) (Some ''0x5afe'') updateImplTxn [] =
             (Inr ''0xsafetx'',
              snd (executeTxn (exampleEnv staleChain) (Some ''0x5afe'') updateImplTxn []))"
    by (simp add: truthy_def executeTxn_safe_example_run)
  have b: "truthy None = None \<and>
           executeTxn (exampleEnv staleChain) None updateImplTxn [] =
             (Inr ''0xtx'', snd (executeTxn (exampleEnv staleChain) None updateImplTxn []))"
    by (simp add: truthy_def executeTxn_direct_example_run)
  have p: "responsive (exampleEnv staleChain) \<and>
           data updateImplTxn = Some (Calldata ''updateNewImplementation'' [AStr ''0x1111''])"
    by (simp add: responsive_exampleEnv updateImplTxn_def)
  have c: "truthy (Some ''0x5afe'') = Some ''0x5afe'' \<and>
           snd (deploy (exampleEnv staleChain) (Some ''0x5afe'') emptyConfig someExisting None [])
             = [] @ snd (deploy (exampleEnv staleChain) (Some ''0x5afe'') emptyConfig someExisting
                           None [])"
    by (simp add: truthy_def)
  have d: "truthy None = None \<and>
           snd (deploy (exampleEnv staleChain) None emptyConfig someExisting None [])
             = [] @ snd (deploy (exampleEnv staleChain) None emptyConfig someExisting None [])"
    by (simp add: truthy_def)
  have f: "snd (deployContract (exampleEnv staleChain) True ''UniSwap'' None [AStr ''0xad''] [])
             = [] @ snd (deployContract (exampleEnv staleChain) True ''UniSwap'' None [AStr ''0xad''] [])"
    by simp
  note r = executeTxn_routes[THEN conjunct2, THEN conjunct2]
  from executeTxn_safe_example_run executeTxn_direct_example_run
    executeTxn_routes[THEN conjunct1, rule_format, OF a]
    executeTxn_routes[THEN conjunct2, THEN conjunct1, rule_format, OF b]
    r[THEN conjunct1, rule_format, OF p, of "Some ''0x5afe''" "[]"]
    r[THEN conjunct1, rule_format, OF p, of None "[]"]
    r[THEN conjunct2, THEN conjunct1, rule_format, OF c]
    r[THEN conjunct2, THEN conjunct2, THEN conjunct1, rule_format, OF d]
    r[THEN conjunct2, THEN conjunct2, THEN conjunct2, rule_format, OF f]
  show ?thesis by (intro conjI)
qed

text \<open>
  Claim C7 as stated fails for the transactions that create contracts: with a multisig
  configured and the proxy missing, \<^verbatim>\<open>deploy\<close> still has the factory deploy the proxy,
  a state-changing transaction that does not go through the Safe.
\<close>

theorem factory_deploys_despite_multisig:
  "truthy (Some ''0x5afe'') = Some ''0x5afe'' \<and>
   filter (\<lambda>ev. isSubmission ev \<and> \<not> isSafe ev)
     (snd (deploy (exampleEnv staleChain) (Some ''0x5afe'') emptyConfig someExisting None []))
     = [Ext (FactoryDeploy ''SmartWalletProxy''
               [AStr ''0x5afe'', AStr ''0x1111'', AStrs [], AStrs [], AStrs []])
          (Inr (RDeployed ''0xSmartWalletProxy'' ''0xcreateSmartWalletProxy''))]"
  unfolding deploy_example_safe_run
  by (simp add: truthy_def trace_defs)

text \<open>
  Claim C10. Reconciliation of an address set does not depend on the case of
  hexadecimal letters. Two runs of the wallet step (or of the UniSwap router step) whose
  on-chain sets and whose configured sets differ only in that case emit the same
  transactions (the same, not only the same up to case: the lists they carry are
  lowercased). When the on-chain set and the configured set differ only in case, the
  run emits nothing; and an entry present on both sides up to case is in neither the
  removal list nor the addition list.
\<close>

theorem reconciliation_ignores_case:
  "(list_all2 sameUpToCase SA SB \<and>
    list_all2 sameUpToCase (supportedWallets cfgA) (supportedWallets cfgB) \<and>
    envA hA (Read (address (smartWalletProxy k)) ''getAllSupportedPlatformWallets'') = Inr (RStrs SA) \<and>
    envB hB (Read (address (smartWalletProxy k)) ''getAllSupportedPlatformWallets'') = Inr (RStrs SB) \<and>
    fst (updateSupportedPlatformWallets envA multisig cfgA k extraArgs hA) = Inr () \<and>
    fst (updateSupportedPlatformWallets envB multisig cfgB k extraArgs hB) = Inr () \<longrightarrow>
      emitted (drop (length hA) (snd (updateSupportedPlatformWallets envA multisig cfgA k extraArgs hA)))
        = emitted (drop (length hB) (snd (updateSupportedPlatformWallets envB multisig cfgB k extraArgs hB)))) \<and>
   (list_all2 sameUpToCase RA RB \<and> list_all2 sameUpToCase (routers ucfgA) (routers ucfgB) \<and>
    uniswap cfgA = Some ucfgA \<and> uniswap cfgB = Some ucfgB \<and>
    envA hA (Read (address uni) ''getAllUniRouters'') = Inr (RStrs RA) \<and>
    envB hB (Read (address uni) ''getAllUniRouters'') = Inr (RStrs RB) \<and>
    fst (updateUniSwap envA multisig cfgA (Some uni) extraArgs hA) = Inr () \<and>
    fst (updateUniSwap envB multisig cfgB (Some uni) extraArgs hB) = Inr () \<longrightarrow>
      emitted (drop (length hA) (snd (updateUniSwap envA multisig cfgA (Some uni) extraArgs hA)))
        = emitted (drop (length hB) (snd (updateUniSwap envB multisig cfgB (Some uni) extraArgs hB)))) \<and>
   (list_all2 sameUpToCase SA (supportedWallets cfgC) \<and>
    envA hA (Read (address (smartWalletProxy k)) ''getAllSupportedPlatformWallets'') = Inr (RStrs SA) \<and>
    fst (updateSupportedPlatformWallets envA multisig cfgC k extraArgs hA) = Inr () \<longrightarrow>
      emitted (drop (length hA) (snd (updateSupportedPlatformWallets envA multisig cfgC k extraArgs hA)))
        = []) \<and>
   (sameUpToCase s c \<and> s \<in> set S \<and> c \<in> set C \<longrightarrow>
      toLowerCase s \<notin> set (difference (map toLowerCase S) (map toLowerCase C)) \<and>
      toLowerCase c \<notin> set (difference (map toLowerCase C) (map toLowerCase S)))"
  (is "(?H1 \<longrightarrow> ?C1) \<and> (?H2 \<longrightarrow> ?C2) \<and> (?H3 \<longrightarrow> ?C3) \<and> (?H4 \<longrightarrow> ?C4)")
proof (intro conjI impI)
  assume a: ?H1
  then have "map toLowerCase SA = map toLowerCase SB"
    and "map toLowerCase (supportedWallets cfgA) = map toLowerCase (supportedWallets cfgB)"
    by (simp_all add: sameUpToCase_map)
  moreover from a have
    "emitted (drop (length hA) (snd (updateSupportedPlatformWallets envA multisig cfgA k extraArgs hA)))
       = reconciliation (smartWalletProxy k) ''updateSupportedPlatformWallets''
           (map toLowerCase SA) (map toLowerCase (supportedWallets cfgA))"
    by (intro wallets_emitted) simp_all
  moreover from a have
    "emitted (drop (length hB) (snd (updateSupportedPlatformWallets envB multisig cfgB k extraArgs hB)))
       = reconciliation (smartWalletProxy k) ''updateSupportedPlatformWallets''
           (map toLowerCase SB) (map toLowerCase (supportedWallets cfgB))"
    by (intro wallets_emitted) simp_all
  ultimately show ?C1 by simp
next
  assume a: ?H2
  then have "map toLowerCase RA = map toLowerCase RB"
    and "map toLowerCase (routers ucfgA) = map toLowerCase (routers ucfgB)"
    by (simp_all add: sameUpToCase_map)
  moreover from a have
    "emitted (drop (length hA) (snd (updateUniSwap envA multisig cfgA (Some uni) extraArgs hA)))
       = reconciliation uni ''updateUniRouters'' (map toLowerCase RA) (map toLowerCase (routers ucfgA))"
    by (intro routers_emitted) simp_all
  moreover from a have
    "emitted (drop (length hB) (snd (updateUniSwap envB multisig cfgB (Some uni) extraArgs hB)))
       = reconciliation uni ''updateUniRouters'' (map toLowerCase RB) (map toLowerCase (routers ucfgB))"
    by (intro routers_emitted) simp_all
  ultimately show ?C2 by simp
next
  assume a: ?H3
  then have "map toLowerCase SA = map toLowerCase (supportedWallets cfgC)"
    by (simp add: sameUpToCase_map)
  moreover from a have
    "emitted (drop (length hA) (snd (updateSupportedPlatformWallets envA multisig cfgC k extraArgs hA)))
       = reconciliation (smartWalletProxy k) ''updateSupportedPlatformWallets''
           (map toLowerCase SA) (map toLowerCase (supportedWallets cfgC))"
    by (intro wallets_emitted) simp_all
  ultimately show ?C3 by (simp add: reconciliation_same)
next
  assume a: ?H4
  then have e: "toLowerCase s = toLowerCase c" by (simp add: sameUpToCase_toLowerCase)
  from a have "toLowerCase c \<in> set (map toLowerCase C)" by simp
  with e show "toLowerCase s \<notin> set (difference (map toLowerCase S) (map toLowerCase C))"
    by (simp add: difference_def)
  from a have "toLowerCase s \<in> set (map toLowerCase S)" by simp
  with e show "toLowerCase c \<notin> set (difference (map toLowerCase C) (map toLowerCase S))"
    by (simp add: difference_def)
qed


theorem reconciliation_ignores_case_witness:
  "emitted (drop (length ([] :: history))
      (snd (updateSupportedPlatformWallets (exampleEnv walletChain) None exampleConfig
              exampleContracts None [])))
     = emitted (drop (length ([] :: history))
         (snd (updateSupportedPlatformWallets (exampleEnv walletChainB) None exampleConfigB
                 exampleContracts None []))) \<and>
   emitted (drop (length ([] :: history))
      (snd (updateUniSwap (exampleEnv walletChain) None exampleConfig (Some (Contract ''0xA5'')) None [])))
     = emitted (drop (length ([] :: history))
         (snd (updateUniSwap (exampleEnv walletChainB) None exampleConfigB (Some (Contract ''0xA5''))
                 None []))) \<and>
   emitted (drop (length ([] :: history))
      (snd (updateSupportedPlatformWallets (exampleEnv walletChain) None exampleConfigC
              exampleContracts None []))) = [] \<and>
   toLowerCase ''0xAA01'' \<notin> set (difference (map toLowerCase [''0xAA01'', ''0xbb02''])
                                    (map toLowerCase [''0xaa01'', ''0xBB02''])) \<and>
   toLowerCase ''0xaa01'' \<notin> set (difference (map toLowerCase [''0xaa01'', ''0xBB02''])
                                    (map toLowerCase [''0xAA01'', ''0xbb02'']))"
proof -
  have v: "hexCase (CHR ''A'') (CHR ''a'')" "hexCase (CHR ''a'') (CHR ''A'')"
    "hexCase (CHR ''B'') (CHR ''b'')" "hexCase (CHR ''b'') (CHR ''B'')"
    "hexCase (CHR ''C'') (CHR ''c'')" "hexCase (CHR ''c'') (CHR ''C'')"
    "hexCase (CHR ''E'') (CHR ''e'')" "hexCase (CHR ''e'') (CHR ''E'')"
    "\<And>x. hexCase x x"
    by (simp_all add: hexCase_def)
  have a: "list_all2 sameUpToCase [''0xAA01'', ''0xbb02''] [''0xaa01'', ''0xBB02''] \<and>
      list_all2 sameUpToCase (supportedWallets exampleConfig) (supportedWallets exampleConfigB) \<and>
      exampleEnv walletChain [] (Read (address (smartWalletProxy exampleContracts))
          ''getAllSupportedPlatformWallets'') = Inr (RStrs [''0xAA01'', ''0xbb02'']) \<and>
      exampleEnv walletChainB [] (Read (address (smartWalletProxy exampleContracts))
          ''getAllSupportedPlatformWallets'') = Inr (RStrs [''0xaa01'', ''0xBB02'']) \<and>
      fst (updateSupportedPlatformWallets (exampleEnv walletChain) None exampleConfig
             exampleContracts None []) = Inr () \<and>
      fst (updateSupportedPlatformWallets (exampleEnv walletChainB) None exampleConfigB
             exampleContracts None []) = Inr ()"
    by (simp add: sameUpToCase_def v updateSupportedPlatformWallets_def run_defs step_defs
        example_defs chain_defs walletChainB_def exampleConfigB_def toLowerCase_def lowerChar_def)
  have b: "list_all2 sameUpToCase [''0xE1''] [''0xe1''] \<and>
      list_all2 sameUpToCase (routers \<lparr>routers = [''0xe1'']\<rparr>) (routers \<lparr>routers = [''0xE1'']\<rparr>) \<and>
      uniswap exampleConfig = Some \<lparr>routers = [''0xe1'']\<rparr> \<and>
      uniswap exampleConfigB = Some \<lparr>routers = [''0xE1'']\<rparr> \<and>
      exampleEnv walletChain [] (Read (address (Contract ''0xA5'')) ''getAllUniRouters'')
        = Inr (RStrs [''0xE1'']) \<and>
      exampleEnv walletChainB [] (Read (address (Contract ''0xA5'')) ''getAllUniRouters'')
        = Inr (RStrs [''0xe1'']) \<and>
      fst (updateUniSwap (exampleEnv walletChain) None exampleConfig (Some (Contract ''0xA5'')) None [])
        = Inr () \<and>
      fst (updateUniSwap (exampleEnv walletChainB) None exampleConfigB (Some (Contract ''0xA5'')) None [])
        = Inr ()"
    by (simp add: sameUpToCase_def v updateUniSwap_def run_defs step_defs
        example_defs chain_defs walletChainB_def exampleConfigB_def toLowerCase_def lowerChar_def)
  have c: "list_all2 sameUpToCase [''0xAA01'', ''0xbb02''] (supportedWallets exampleConfigC) \<and>
      exampleEnv walletChain [] (Read (address (smartWalletProxy exampleContracts))
          ''getAllSupportedPlatformWallets'') = Inr (RStrs [''0xAA01'', ''0xbb02'']) \<and>
      fst (updateSupportedPlatformWallets (exampleEnv walletChain) None exampleConfigC
             exampleContracts None []) = Inr ()"
    by (simp add: sameUpToCase_def v updateSupportedPlatformWallets_def run_defs step_defs
        example_defs chain_defs exampleConfigC_def toLowerCase_def lowerChar_def)
  have d: "sameUpToCase ''0xAA01'' ''0xaa01'' \<and> ''0xAA01'' \<in> set [''0xAA01'', ''0xbb02''] \<and>
      ''0xaa01'' \<in> set [''0xaa01'', ''0xBB02'']"
    by (simp add: sameUpToCase_def v)
  from reconciliation_ignores_case[THEN conjunct1, rule_format, OF a]
    reconciliation_ignores_case[THEN conjunct2, THEN conjunct1, rule_format, OF b]
    reconciliation_ignores_case[THEN conjunct2, THEN conjunct2, THEN conjunct1, rule_format, OF c]
    reconciliation_ignores_case[THEN conjunct2, THEN conjunct2, THEN conjunct2, rule_format, OF d]
  show ?thesis by (intro conjI) simp_all
qed

end
